theory Spec2Isabelle
  imports Main "HOL-Library.Word"
begin

section \<open>Values, options and errors\<close>

text \<open>
  The writer of \<^verbatim>\<open>src/index.js\<close> owns a byte buffer and a cursor. Bytes are
  8-bit words, JavaScript integers are \<open>int\<close>. The text handed to \<^verbatim>\<open>writeString\<close>
  is a \<open>string\<close> whose characters are the bytes \<^verbatim>\<open>Buffer(string)\<close> produces
  (for ASCII text the two coincide).
\<close>

type_synonym byte = "8 word"

datatype endian = BE | LE

text \<open>
  The five error kinds of \<^verbatim>\<open>lib/errors.js\<close> (\<^verbatim>\<open>errors.range\<close>, \<^verbatim>\<open>errors.size\<close>,
  \<^verbatim>\<open>errors.dispatch\<close>, \<^verbatim>\<open>errors.overflow\<close>, \<^verbatim>\<open>errors.arrayType\<close>), the
  \<^verbatim>\<open>ReferenceError\<close> JavaScript raises when an undeclared variable is read, and the two
  failures of the platform's \<^verbatim>\<open>Buffer\<close>: the \<^verbatim>\<open>AssertionError\<close> of its write methods
  (the one the comment in \<^verbatim>\<open>writeRaw\<close> speaks of) and the \<^verbatim>\<open>targetStart out of bounds\<close>
  of \<^verbatim>\<open>copy\<close>.
\<close>

datatype error =
    RangeError
  | SizeError
  | DispatchError
  | OverflowError
  | ArrayTypeError
  | ReferenceError
  | AssertionError
  | TargetStartError

text \<open>An element of a JavaScript array: a number, or any value whose \<^verbatim>\<open>typeof\<close> is not \<^verbatim>\<open>'number'\<close>.\<close>

datatype elem = Num int | NotNum

text \<open>What \<^verbatim>\<open>writeRaw\<close> receives: a \<^verbatim>\<open>Buffer\<close> or an array.\<close>

datatype raw = RBuffer "byte list" | RArray "elem list"

text \<open>What \<^verbatim>\<open>write\<close> receives: a string, a buffer or array, or anything else (taken as a number).\<close>

datatype data = DString string | DRaw raw | DNumber int

text \<open>
  The options object. A field is \<open>None\<close> when the key is absent. \<^verbatim>\<open>opts\<close> itself may
  be missing, so the operations take an \<open>opts option\<close>.
\<close>

record opts =
  size_opt :: "int option"
  null_opt :: "bool option"
  safe_opt :: "bool option"

definition no_opts :: opts where
  "no_opts = \<lparr>size_opt = None, null_opt = None, safe_opt = None\<rparr>"

text \<open>\<^verbatim>\<open>opts && opts.size\<close>: truthy when the object is there, the key is there and the number is not 0.\<close>

definition size_given :: "opts option \<Rightarrow> int option" where
  "size_given oo =
     (case oo of
        None \<Rightarrow> None
      | Some opts \<Rightarrow>
          (case size_opt opts of
             None \<Rightarrow> None
           | Some s \<Rightarrow> if s = 0 then None else Some s))"

text \<open>\<^verbatim>\<open>opts && opts.safe === true\<close>.\<close>

definition safe_given :: "opts option \<Rightarrow> bool" where
  "safe_given oo = (case oo of None \<Rightarrow> False | Some opts \<Rightarrow> safe_opt opts = Some True)"

record writer =
  buffer :: "byte list"
  pos :: int
  endianness :: endian

text \<open>
  An operation either returns the writer (\<open>Ok\<close>) or throws; a throw carries the writer as
  the operation left it, since the object survives the exception.
\<close>

datatype outcome = Ok writer | Throw error writer

text \<open>The writer after the operation, whether it returned or threw.\<close>

fun writer_of :: "outcome \<Rightarrow> writer" where
  "writer_of (Ok w) = w"
| "writer_of (Throw e w) = w"

section \<open>Ranges and the method table\<close>

text \<open>
  Modelled from the spec: \<^verbatim>\<open>lib/range.js\<close> is not among the sources. The spec gives a
  range as inclusive bounds \<open>[min, max]\<close> with a membership test; \<^verbatim>\<open>Range(min, max)\<close> is
  the pair and \<^verbatim>\<open>range.test(v)\<close> the test.
\<close>

definition Range_test :: "int \<times> int \<Rightarrow> int \<Rightarrow> bool" where
  "Range_test r v = (fst r \<le> v \<and> v \<le> snd r)"

definition UNSIGNED_RANGE_8 :: "int \<times> int" where
  "UNSIGNED_RANGE_8 = (- 0x80, 0xff)"

definition UNSIGNED_RANGE_16 :: "int \<times> int" where
  "UNSIGNED_RANGE_16 = (- 0x8000, 0xffff)"

definition UNSIGNED_RANGE_32 :: "int \<times> int" where
  "UNSIGNED_RANGE_32 = (- 0x80000000, 0xffffffff)"

definition INT_SIZES :: "int list" where
  "INT_SIZES = [8, 16, 32]"

definition NULL_BYTE :: "byte list" where
  "NULL_BYTE = [0x00]"

definition between :: "int \<Rightarrow> int \<Rightarrow> int \<Rightarrow> bool" where
  "between v mn mx = (v \<ge> mn \<and> v \<le> mx)"

text \<open>
  The methods of \<^verbatim>\<open>Buffer.prototype\<close> the table refers to; \<^verbatim>\<open>'writeUInt16' + e\<close> is
  \<open>WriteUInt16 e\<close>.
\<close>

datatype bufmethod =
    WriteUInt8
  | WriteUInt16 endian
  | WriteUInt32 endian
  | WriteInt8
  | WriteInt16 endian
  | WriteInt32 endian

text \<open>
  An entry of the method table; its fields \<^verbatim>\<open>method\<close> and \<^verbatim>\<open>length\<close> are \<open>mmethod\<close> and
  \<open>mlength\<close> here. \<^verbatim>\<open>test: gentestInt(min, max)\<close> is a closure over its two bounds; the
  entry keeps the bounds and \<open>test\<close> applies \<open>between\<close> to them.
\<close>

record mtype =
  mmethod :: bufmethod
  mlength :: int
  tmin :: int
  tmax :: int

definition test :: "mtype \<Rightarrow> int \<Rightarrow> bool" where
  "test m v = between v (tmin m) (tmax m)"

definition generateMethodTable :: "endian \<Rightarrow> mtype list" where
  "generateMethodTable e =
     [ \<lparr>mmethod = WriteUInt8,    mlength = 1, tmin = 0, tmax = 0xff\<rparr>,
       \<lparr>mmethod = WriteUInt16 e, mlength = 2, tmin = 0, tmax = 0xffff\<rparr>,
       \<lparr>mmethod = WriteUInt32 e, mlength = 4, tmin = 0, tmax = 0xffffffff\<rparr>,
       \<lparr>mmethod = WriteInt8,     mlength = 1, tmin = - 0x80, tmax = 0x7f\<rparr>,
       \<lparr>mmethod = WriteInt16 e,  mlength = 2, tmin = - 0x8000, tmax = 0x7fff\<rparr>,
       \<lparr>mmethod = WriteInt32 e,  mlength = 4, tmin = - 0x80000000, tmax = 0x7fffffff\<rparr> ]"

datatype signedness = Unsigned | Signed

text \<open>\<^verbatim>\<open>this._methods.bySize[k][size]\<close>; \<open>None\<close> is JavaScript's \<^verbatim>\<open>undefined\<close>.\<close>

definition bySize :: "endian \<Rightarrow> signedness \<Rightarrow> int \<Rightarrow> mtype option" where
  "bySize e k sz =
     (case k of
        Unsigned \<Rightarrow>
          (if sz = 8 then Some (generateMethodTable e ! 0)
           else if sz = 16 then Some (generateMethodTable e ! 1)
           else if sz = 32 then Some (generateMethodTable e ! 2)
           else None)
      | Signed \<Rightarrow>
          (if sz = 8 then Some (generateMethodTable e ! 3)
           else if sz = 16 then Some (generateMethodTable e ! 4)
           else if sz = 32 then Some (generateMethodTable e ! 5)
           else None))"

section \<open>The platform's buffer primitives\<close>

text \<open>
  \<^verbatim>\<open>Buffer\<close> belongs to the platform, not to the repository. The definitions below follow
  the Node.js releases the source is written for (0.8 and 0.10: \<^verbatim>\<open>Buffer(length)\<close>,
  \<^verbatim>\<open>parent\<close>, \<^verbatim>\<open>offset\<close>, \<^verbatim>\<open>get\<close>, \<^verbatim>\<open>set\<close>, assertions in the write methods).

  The write methods assert the upper bound of the offset, and the cursor that supplies
  the offsets is never negative; for an index outside the byte array \<open>poke\<close> leaves the
  bytes as they are.
\<close>

definition poke :: "byte list \<Rightarrow> int \<Rightarrow> byte \<Rightarrow> byte list" where
  "poke buf i b = (if 0 \<le> i \<and> i < int (length buf) then buf[nat i := b] else buf)"

fun store_bytes :: "byte list \<Rightarrow> int \<Rightarrow> byte list \<Rightarrow> byte list" where
  "store_bytes buf off [] = buf"
| "store_bytes buf off (b # bs) = store_bytes (poke buf off b) (off + 1) bs"

text \<open>The \<open>n\<close> low bytes of \<open>v\<close> (two's complement for a negative \<open>v\<close>), least significant first.\<close>

fun le_bytes :: "nat \<Rightarrow> int \<Rightarrow> byte list" where
  "le_bytes 0 v = []"
| "le_bytes (Suc n) v = word_of_int v # le_bytes n (v div 256)"

definition int_bytes :: "endian \<Rightarrow> nat \<Rightarrow> int \<Rightarrow> byte list" where
  "int_bytes e n v = (case e of LE \<Rightarrow> le_bytes n v | BE \<Rightarrow> rev (le_bytes n v))"

fun method_bytes :: "bufmethod \<Rightarrow> nat" where
  "method_bytes WriteUInt8 = 1"
| "method_bytes (WriteUInt16 e) = 2"
| "method_bytes (WriteUInt32 e) = 4"
| "method_bytes WriteInt8 = 1"
| "method_bytes (WriteInt16 e) = 2"
| "method_bytes (WriteInt32 e) = 4"

fun method_endian :: "bufmethod \<Rightarrow> endian" where
  "method_endian (WriteUInt16 e) = e"
| "method_endian (WriteUInt32 e) = e"
| "method_endian (WriteInt16 e) = e"
| "method_endian (WriteInt32 e) = e"
| "method_endian m = BE"

text \<open>The bounds \<^verbatim>\<open>verifuint\<close> and \<^verbatim>\<open>verifsint\<close> assert for each method.\<close>

fun method_min :: "bufmethod \<Rightarrow> int" where
  "method_min WriteInt8 = - 0x80"
| "method_min (WriteInt16 e) = - 0x8000"
| "method_min (WriteInt32 e) = - 0x80000000"
| "method_min m = 0"

fun method_max :: "bufmethod \<Rightarrow> int" where
  "method_max WriteUInt8 = 0xff"
| "method_max (WriteUInt16 e) = 0xffff"
| "method_max (WriteUInt32 e) = 0xffffffff"
| "method_max WriteInt8 = 0x7f"
| "method_max (WriteInt16 e) = 0x7fff"
| "method_max (WriteInt32 e) = 0x7fffffff"

text \<open>
  \<^verbatim>\<open>method.call(buf, value, offset)\<close> without \<^verbatim>\<open>noAssert\<close>: the method asserts that the
  last byte lies inside the buffer and that the value is in the method's range, then
  stores the bytes.
\<close>

definition call_method :: "bufmethod \<Rightarrow> byte list \<Rightarrow> int \<Rightarrow> int \<Rightarrow> error + byte list" where
  "call_method m buf v offset =
     (if \<not> (offset + (int (method_bytes m) - 1) < int (length buf)) then Inl AssertionError
      else if \<not> (method_min m \<le> v \<and> v \<le> method_max m) then Inl AssertionError
      else Inr (store_bytes buf offset (int_bytes (method_endian m) (method_bytes m) v)))"

text \<open>\<^verbatim>\<open>buf.writeUInt8(x, offset)\<close> on an array element: a non-number fails the assertion too.\<close>

definition writeUInt8 :: "byte list \<Rightarrow> elem \<Rightarrow> int \<Rightarrow> error + byte list" where
  "writeUInt8 buf x offset =
     (case x of
        NotNum \<Rightarrow> Inl AssertionError
      | Num v \<Rightarrow> call_method WriteUInt8 buf v offset)"

text \<open>
  \<^verbatim>\<open>source.copy(target, targetStart)\<close>: nothing to do for an empty source or target; a
  start at or past the end of the target throws; otherwise the bytes that fit are copied
  and the rest is dropped silently.
\<close>

definition buffer_copy :: "byte list \<Rightarrow> byte list \<Rightarrow> int \<Rightarrow> error + byte list" where
  "buffer_copy source target target_start =
     (let ts = (if target_start \<ge> 0 then target_start else 0) in
      if length source = 0 \<or> length target = 0 then Inr target
      else if ts \<ge> int (length target) then Inl TargetStartError
      else Inr (store_bytes target ts (take (nat (int (length target) - ts)) source)))"

text \<open>
  \<^verbatim>\<open>buf.slice(0, end)\<close>: the end is clamped into \<open>[0, length]\<close>, a negative one counting
  from the end of the buffer.
\<close>

definition buffer_slice0 :: "byte list \<Rightarrow> int \<Rightarrow> byte list" where
  "buffer_slice0 buf e =
     (let len = int (length buf);
          e' = (if e \<ge> len then len else if e \<ge> 0 then e else if e + len \<ge> 0 then e + len else 0)
      in take (nat e') buf)"

text \<open>\<^verbatim>\<open>Buffer(string)\<close>.\<close>

definition Buffer_of_string :: "string \<Rightarrow> byte list" where
  "Buffer_of_string s = map (\<lambda>c. word_of_nat (of_char c)) s"

section \<open>The writer\<close>

text \<open>\<^verbatim>\<open>BitWriter(length, endianness)\<close>: a zero-filled buffer, the cursor at 0.\<close>

definition BitWriter :: "nat \<Rightarrow> endian \<Rightarrow> writer" where
  "BitWriter n e = \<lparr>buffer = replicate n 0, pos = 0, endianness = e\<rparr>"

text \<open>\<^verbatim>\<open>this.length\<close>.\<close>

definition wlength :: "writer \<Rightarrow> int" where
  "wlength w = int (length (buffer w))"

definition out :: "writer \<Rightarrow> byte list" where
  "out w = buffer w"

definition remaining :: "writer \<Rightarrow> int" where
  "remaining w = wlength w - pos w"

definition full :: "writer \<Rightarrow> bool" where
  "full w = (remaining w = 0)"

text \<open>\<^verbatim>\<open>position(p)\<close> with an argument; without one it returns \<open>pos w\<close>.\<close>

definition position :: "int \<Rightarrow> writer \<Rightarrow> outcome" where
  "position p w =
     (if p > wlength w \<or> p < 0 then Throw RangeError w
      else Ok (w\<lparr>pos := p\<rparr>))"

definition move :: "int \<Rightarrow> writer \<Rightarrow> outcome" where
  "move amount w = position (pos w + amount) w"

definition reset :: "writer \<Rightarrow> outcome" where
  "reset w = position 0 (w\<lparr>buffer := replicate (length (buffer w)) 0\<rparr>)"

text \<open>\<^verbatim>\<open>_copyBuffer\<close>: copy at the cursor, then move the cursor by the length of the source.\<close>

definition copyBuffer :: "byte list \<Rightarrow> writer \<Rightarrow> outcome" where
  "copyBuffer buf w =
     (case buffer_copy buf (buffer w) (pos w) of
        Inl e \<Rightarrow> Throw e w
      | Inr b \<Rightarrow> move (int (length buf)) (w\<lparr>buffer := b\<rparr>))"

subsection \<open>writeInt\<close>

text \<open>
  Lines 77 to 88: the choice of the table entry. With a size, the size is checked against
  \<open>INT_SIZES\<close> and the entry is looked up by \<^verbatim>\<open>integer > 0 ? 'unsigned' : 'signed'\<close>;
  without one, the first entry of the table whose test accepts the integer.
\<close>

definition select_type :: "endian \<Rightarrow> int \<Rightarrow> opts option \<Rightarrow> error + mtype option" where
  "select_type e integer oo =
     (case size_given oo of
        Some s \<Rightarrow>
          (if s \<notin> set INT_SIZES then Inl SizeError
           else Inr (bySize e (if integer > 0 then Unsigned else Signed) s))
      | None \<Rightarrow>
          (case filter (\<lambda>m. test m integer) (generateMethodTable e) of
             [] \<Rightarrow> Inr None
           | m # ms \<Rightarrow> Inr (Some m)))"

definition writeInt :: "int \<Rightarrow> opts option \<Rightarrow> writer \<Rightarrow> outcome" where
  "writeInt integer oo w =
     (if \<not> Range_test UNSIGNED_RANGE_32 integer then Throw RangeError w
      else
        (case select_type (endianness w) integer oo of
           Inl e \<Rightarrow> Throw e w
         | Inr None \<Rightarrow> Throw DispatchError w
         | Inr (Some type) \<Rightarrow>
             (if mlength type > remaining w then Throw OverflowError w
              else
                (case call_method (mmethod type) (buffer w) integer (pos w) of
                   Inl e \<Rightarrow> Throw e w
                 | Inr b \<Rightarrow> move (mlength type) (w\<lparr>buffer := b\<rparr>)))))"

subsection \<open>writeRaw\<close>

text \<open>
  The loop of the \<^verbatim>\<open>safe\<close> branch. \<^verbatim>\<open>this._pos++\<close> is an argument of the call, so the
  cursor has moved when \<^verbatim>\<open>writeUInt8\<close> runs, and stays moved when it throws.
\<close>

fun writeRaw_safe :: "elem list \<Rightarrow> writer \<Rightarrow> outcome" where
  "writeRaw_safe [] w = Ok w"
| "writeRaw_safe (x # xs) w =
     (let offset = pos w;
          w1 = w\<lparr>pos := pos w + 1\<rparr>
      in case writeUInt8 (buffer w1) x offset of
           Inl e \<Rightarrow> Throw e w1
         | Inr b \<Rightarrow> writeRaw_safe xs (w1\<lparr>buffer := b\<rparr>))"

text \<open>The validation loop of lines 162 to 167: the first offending element decides the error.\<close>

fun validate :: "elem list \<Rightarrow> error option" where
  "validate [] = None"
| "validate (x # xs) =
     (case x of
        NotNum \<Rightarrow> Some ArrayTypeError
      | Num v \<Rightarrow>
          (if \<not> Range_test UNSIGNED_RANGE_8 v then Some RangeError
           else validate xs))"

text \<open>
  After the validation the source returns \<^verbatim>\<open>this.writeRaw(array, { safe: true })\<close>. The
  parameter is named \<^verbatim>\<open>arry\<close>; \<^verbatim>\<open>array\<close> is declared nowhere, and reading it raises a
  \<^verbatim>\<open>ReferenceError\<close> before the call is made.
\<close>

definition writeRaw :: "raw \<Rightarrow> opts option \<Rightarrow> writer \<Rightarrow> outcome" where
  "writeRaw arry oo w =
     (case arry of
        RBuffer buf \<Rightarrow> copyBuffer buf w
      | RArray xs \<Rightarrow>
          (if safe_given oo then writeRaw_safe xs w
           else
             (case validate xs of
                Some e \<Rightarrow> Throw e w
              | None \<Rightarrow> Throw ReferenceError w)))"

subsection \<open>writeString\<close>

text \<open>
  Lines 103 to 105: a missing \<^verbatim>\<open>opts\<close> becomes a fresh object, and a missing \<^verbatim>\<open>null\<close>
  key is set to \<^verbatim>\<open>true\<close> on the object itself.
\<close>

definition string_opts :: "opts option \<Rightarrow> opts" where
  "string_opts oo =
     (let opts = (case oo of None \<Rightarrow> no_opts | Some given \<Rightarrow> given)
      in if null_opt opts = None then opts\<lparr>null_opt := Some True\<rparr> else opts)"

text \<open>
  The result is the outcome together with the caller's options object as the call leaves
  it (\<open>None\<close> when the caller passed none). \<^verbatim>\<open>this.write(b)\<close> on a buffer \<open>b\<close>, with no
  further argument, is \<^verbatim>\<open>this.writeRaw(b)\<close>.
\<close>

definition writeString :: "string \<Rightarrow> opts option \<Rightarrow> writer \<Rightarrow> outcome \<times> opts option" where
  "writeString string oo w =
     (let opts = string_opts oo;
          buf = Buffer_of_string string;
          len = int (length buf);
          res =
            (case size_given (Some opts) of
               Some sz \<Rightarrow>
                 (if len > sz then writeRaw (RBuffer (buffer_slice0 buf sz)) None w
                  else writeRaw (RBuffer (buf @ replicate (nat (sz - len)) 0)) None w)
             | None \<Rightarrow>
                 (if len > remaining w then Throw OverflowError w
                  else
                    (case writeRaw (RBuffer buf) None w of
                       Throw e w1 \<Rightarrow> Throw e w1
                     | Ok w1 \<Rightarrow>
                         (if null_opt opts \<noteq> Some False \<and> remaining w1 > 0
                          then writeRaw (RBuffer NULL_BYTE) None w1
                          else Ok w1))))
      in (res, map_option (\<lambda>_. opts) oo))"

subsection \<open>The generic write\<close>

text \<open>\<^verbatim>\<open>write(data, opts)\<close>, named \<open>write_any\<close> here since \<open>write\<close> is a command of the proof language.\<close>

definition write_any :: "data \<Rightarrow> opts option \<Rightarrow> writer \<Rightarrow> outcome \<times> opts option" where
  "write_any d oo w =
     (case d of
        DString s \<Rightarrow> writeString s oo w
      | DRaw arry \<Rightarrow> (writeRaw arry oo w, oo)
      | DNumber integer \<Rightarrow> (writeInt integer oo w, oo))"

subsection \<open>Indexed access\<close>

text \<open>
  \<^verbatim>\<open>_makeArrayLike\<close> defines a property for every \<open>n\<close> with \<open>0 \<le> n < length\<close>. Its getter
  is \<^verbatim>\<open>this.get(n)\<close>; its setter tests the value against \<open>UNSIGNED_RANGE_8\<close> and then
  calls \<^verbatim>\<open>this.set(n, v)\<close>, which stores the value in the byte array (modulo 256). No
  property exists for another \<open>n\<close>: reading gives \<^verbatim>\<open>undefined\<close> and assigning does not
  reach the buffer.
\<close>

definition index_get :: "writer \<Rightarrow> int \<Rightarrow> byte option" where
  "index_get w n =
     (if 0 \<le> n \<and> n < wlength w then Some (buffer w ! nat n) else None)"

definition index_set :: "writer \<Rightarrow> int \<Rightarrow> int \<Rightarrow> outcome" where
  "index_set w n v =
     (if 0 \<le> n \<and> n < wlength w then
        (if \<not> Range_test UNSIGNED_RANGE_8 v then Throw RangeError w
         else Ok (w\<lparr>buffer := poke (buffer w) n (word_of_int v)\<rparr>))
      else Ok w)"

section \<open>Basic facts about the primitives and the operations\<close>

lemma length_poke: "length (poke buf i b) = length buf"
  by (simp add: poke_def)

lemma length_store_bytes: "length (store_bytes buf off bs) = length buf"
  by (induction bs arbitrary: buf off) (simp_all add: length_poke)

lemma store_bytes_append:
  "store_bytes buf off (xs @ ys) = store_bytes (store_bytes buf off xs) (off + int (length xs)) ys"
proof (induction xs arbitrary: buf off)
  case Nil
  show ?case by simp
next
  case (Cons x xs)
  show ?case using Cons.IH [of "poke buf off x" "off + 1"] by (simp add: add.assoc)
qed

lemma store_bytes_eq:
  "0 \<le> off \<Longrightarrow> off + int (length bs) \<le> int (length buf) \<Longrightarrow>
   store_bytes buf off bs = take (nat off) buf @ bs @ drop (nat off + length bs) buf"
proof (induction bs arbitrary: buf off)
  case Nil
  then show ?case by simp
next
  case (Cons b bs)
  let ?n = "nat off"
  from Cons.prems have n: "?n < length buf" by simp
  have pk: "poke buf off b = buf[?n := b]"
    using Cons.prems by (simp add: poke_def)
  have step: "store_bytes (buf[?n := b]) (off + 1) bs =
      take (nat (off + 1)) (buf[?n := b]) @ bs @ drop (nat (off + 1) + length bs) (buf[?n := b])"
    using Cons.prems by (intro Cons.IH) simp_all
  have suc: "nat (off + 1) = Suc ?n" using Cons.prems by simp
  have t: "take (Suc ?n) (buf[?n := b]) = take ?n buf @ [b]"
    using n by (simp add: take_Suc_conv_app_nth)
  have d: "drop (Suc ?n + length bs) (buf[?n := b]) = drop (Suc ?n + length bs) buf"
    by simp
  show ?case
    by (simp add: pk step suc t d)
qed

lemma call_method_length: "call_method m buf v off = Inr b \<Longrightarrow> length b = length buf"
  by (auto simp: call_method_def length_store_bytes split: if_splits)

lemma copyBuffer_fits:
  assumes "0 \<le> pos w" and "int (length bs) \<le> remaining w"
  shows "copyBuffer bs w =
         Ok (w\<lparr>buffer := store_bytes (buffer w) (pos w) bs, pos := pos w + int (length bs)\<rparr>)"
proof (cases "bs = []")
  case True
  with assms show ?thesis
    by (simp add: copyBuffer_def buffer_copy_def move_def position_def remaining_def wlength_def)
next
  case False
  then have "0 < int (length bs)" by simp
  with assms have lt: "pos w < int (length (buffer w))"
    unfolding remaining_def wlength_def by linarith
  then have ne: "length (buffer w) \<noteq> 0" using assms(1) by auto
  have tk: "take (nat (int (length (buffer w)) - pos w)) bs = bs"
    using assms by (simp add: remaining_def wlength_def)
  show ?thesis
    using assms False lt ne
    by (simp add: copyBuffer_def buffer_copy_def Let_def tk move_def position_def remaining_def
        wlength_def length_store_bytes)
qed

lemma copyBuffer_Ok:
  "copyBuffer bs w = Ok w' \<Longrightarrow>
   pos w' = pos w + int (length bs) \<and> length (buffer w') = length (buffer w) \<and>
   endianness w' = endianness w"
  by (auto simp: copyBuffer_def buffer_copy_def Let_def move_def position_def length_store_bytes
      split: sum.splits if_splits)

lemma copyBuffer_Throw:
  "copyBuffer bs w = Throw e w' \<Longrightarrow>
   pos w' = pos w \<and> length (buffer w') = length (buffer w) \<and> endianness w' = endianness w"
  by (auto simp: copyBuffer_def buffer_copy_def Let_def move_def position_def length_store_bytes
      split: sum.splits if_splits)

lemma writeUInt8_length: "writeUInt8 buf x off = Inr b \<Longrightarrow> length b = length buf"
  by (auto simp: writeUInt8_def split: elem.splits dest: call_method_length)

lemma writeRaw_safe_Ok:
  "writeRaw_safe xs w = Ok w' \<Longrightarrow>
   pos w' = pos w + int (length xs) \<and> length (buffer w') = length (buffer w)"
proof (induction xs arbitrary: w)
  case Nil
  then show ?case by simp
next
  case (Cons x xs)
  from Cons.prems obtain b where
    b: "writeUInt8 (buffer w) x (pos w) = Inr b" and
    r: "writeRaw_safe xs (w\<lparr>pos := pos w + 1, buffer := b\<rparr>) = Ok w'"
    by (auto simp: Let_def split: sum.splits)
  from Cons.IH [OF r] writeUInt8_length [OF b] show ?case by simp
qed

lemma table_mem:
  assumes "t \<in> set (generateMethodTable e)"
  shows "mlength t = int (method_bytes (mmethod t))" and "0 < mlength t"
  using assms by (auto simp: generateMethodTable_def)

lemma bySize_mem: "bySize e k s = Some t \<Longrightarrow> t \<in> set (generateMethodTable e)"
  by (auto simp: bySize_def generateMethodTable_def split: signedness.splits if_splits)

lemma select_type_mem:
  assumes "select_type e i oo = Inr (Some t)"
  shows "t \<in> set (generateMethodTable e)"
proof (cases "size_given oo")
  case None
  with assms have "filter (\<lambda>m. test m i) (generateMethodTable e) = t # tl (filter (\<lambda>m. test m i) (generateMethodTable e))"
    by (auto simp: select_type_def split: list.splits)
  then have "t \<in> set (filter (\<lambda>m. test m i) (generateMethodTable e))"
    by (metis list.set_intros(1))
  then show ?thesis by simp
next
  case (Some s)
  with assms show ?thesis
    by (auto simp: select_type_def split: if_splits dest: bySize_mem)
qed

lemma writeInt_Ok:
  assumes "writeInt i oo w = Ok w'"
  shows "\<exists>t. select_type (endianness w) i oo = Inr (Some t) \<and>
             pos w' = pos w + mlength t \<and> length (buffer w') = length (buffer w)"
  using assms
  by (auto simp: writeInt_def move_def position_def split: if_splits sum.splits option.splits
      dest: call_method_length)

lemma writeInt_Throw:
  assumes "0 \<le> pos w" and "writeInt i oo w = Throw e w'"
  shows "w' = w"
proof -
  {
    fix t b
    assume t: "select_type (endianness w) i oo = Inr (Some t)"
      and fit: "\<not> mlength t > remaining w"
      and b: "call_method (mmethod t) (buffer w) i (pos w) = Inr b"
    from select_type_mem [OF t] have "0 < mlength t" by (rule table_mem(2))
    with assms(1) fit call_method_length [OF b]
    have "move (mlength t) (w\<lparr>buffer := b\<rparr>) = Ok (w\<lparr>buffer := b, pos := pos w + mlength t\<rparr>)"
      by (simp add: move_def position_def remaining_def wlength_def)
  }
  with assms(2) show ?thesis
    by (auto simp: writeInt_def split: if_splits sum.splits option.splits)
qed

lemma select_type_auto:
  assumes "- (2 ^ 31) \<le> v" and "v < 2 ^ 31" and "size_given oo = None"
  shows "\<exists>i<6. select_type e v oo = Inr (Some (generateMethodTable e ! i)) \<and>
               test (generateMethodTable e ! i) v \<and>
               (\<forall>j<i. \<not> test (generateMethodTable e ! j) v)"
proof -
  consider "0 \<le> v \<and> v \<le> 255" | "255 < v \<and> v \<le> 65535" | "65535 < v"
    | "- 128 \<le> v \<and> v < 0" | "- 32768 \<le> v \<and> v < - 128" | "v < - 32768"
    by linarith
  then show ?thesis
  proof cases
    case 1
    with assms show ?thesis
      by (intro exI [of _ 0]) (simp add: select_type_def generateMethodTable_def test_def between_def)
  next
    case 2
    with assms show ?thesis
      by (intro exI [of _ 1]) (simp add: select_type_def generateMethodTable_def test_def between_def)
  next
    case 3
    with assms show ?thesis
      by (intro exI [of _ 2])
         (simp add: select_type_def generateMethodTable_def test_def between_def less_Suc_eq numeral_2_eq_2)
  next
    case 4
    with assms show ?thesis
      by (intro exI [of _ 3])
         (simp add: select_type_def generateMethodTable_def test_def between_def less_Suc_eq numeral_3_eq_3)
  next
    case 5
    with assms show ?thesis
      by (intro exI [of _ 4])
         (auto simp add: select_type_def generateMethodTable_def test_def between_def less_Suc_eq eval_nat_numeral)
  next
    case 6
    with assms show ?thesis
      by (intro exI [of _ 5])
         (auto simp add: select_type_def generateMethodTable_def test_def between_def less_Suc_eq eval_nat_numeral)
  qed
qed

lemma size_given_string_opts: "size_given (Some (string_opts oo)) = size_given oo"
  by (simp add: size_given_def string_opts_def no_opts_def Let_def split: option.splits)

lemma null_string_opts:
  "null_opt (string_opts oo) = Some False \<longleftrightarrow> (\<exists>given. oo = Some given \<and> null_opt given = Some False)"
  by (auto simp add: string_opts_def no_opts_def Let_def split: option.splits)

lemma writeRaw_buffer_fits:
  assumes "0 \<le> pos w" and "int (length bs) \<le> remaining w"
  shows "writeRaw (RBuffer bs) oo w =
         Ok (w\<lparr>buffer := store_bytes (buffer w) (pos w) bs, pos := pos w + int (length bs)\<rparr>)"
  using copyBuffer_fits [OF assms] by (simp add: writeRaw_def)

lemma writeString_unsized_overflow:
  assumes "size_given oo = None" and "int (length (Buffer_of_string s)) > remaining w"
  shows "fst (writeString s oo w) = Throw OverflowError w"
  using assms by (simp add: writeString_def Let_def size_given_string_opts)

lemma writeString_unsized_fits:
  assumes p: "0 \<le> pos w" and sz: "size_given oo = None"
    and fit: "int (length (Buffer_of_string s)) \<le> remaining w"
  shows "fst (writeString s oo w) =
         (let bs = Buffer_of_string s;
              terminator =
                (if (\<forall>given. oo = Some given \<longrightarrow> null_opt given \<noteq> Some False) \<and>
                    int (length bs) < remaining w
                 then [0] else [])
          in Ok (w\<lparr>buffer := store_bytes (buffer w) (pos w) (bs @ terminator),
                   pos := pos w + int (length bs) + int (length terminator)\<rparr>))"
proof -
  let ?bs = "Buffer_of_string s"
  let ?w1 = "w\<lparr>buffer := store_bytes (buffer w) (pos w) ?bs, pos := pos w + int (length ?bs)\<rparr>"
  have first: "writeRaw (RBuffer ?bs) None w = Ok ?w1"
    by (rule writeRaw_buffer_fits [OF p fit])
  have rem1: "remaining ?w1 = remaining w - int (length ?bs)"
    by (simp add: remaining_def wlength_def length_store_bytes)
  have nul: "null_opt (string_opts oo) \<noteq> Some False \<longleftrightarrow>
             (\<forall>given. oo = Some given \<longrightarrow> null_opt given \<noteq> Some False)"
    by (auto simp: null_string_opts)
  show ?thesis
  proof (cases "(\<forall>given. oo = Some given \<longrightarrow> null_opt given \<noteq> Some False) \<and>
                int (length ?bs) < remaining w")
    case True
    have p1: "0 \<le> pos ?w1" using p by simp
    have fit1: "int (length NULL_BYTE) \<le> remaining ?w1"
      using True by (simp add: rem1 NULL_BYTE_def)
    have second: "writeRaw (RBuffer NULL_BYTE) None ?w1 =
        Ok (w\<lparr>buffer := store_bytes (buffer w) (pos w) (?bs @ [0]),
              pos := pos w + int (length ?bs) + 1\<rparr>)"
      using writeRaw_buffer_fits [OF p1 fit1, of None]
      by (simp add: store_bytes_append NULL_BYTE_def)
    from True sz fit show ?thesis
      by (simp add: writeString_def Let_def size_given_string_opts first rem1 nul second)
  next
    case False
    with sz fit show ?thesis
      by (auto simp add: writeString_def Let_def size_given_string_opts first rem1 nul)
  qed
qed

lemma writeString_sized_fits:assumes p: "0 \<le> pos w" and sz: "size_opt given = Some n" and pos: "0 < n"
    and fit: "n \<le> remaining w"
  shows "fst (writeString s (Some given) w) =
         Ok (w\<lparr>buffer := store_bytes (buffer w) (pos w)
                    (if int (length (Buffer_of_string s)) > n then take (nat n) (Buffer_of_string s)
                     else Buffer_of_string s @ replicate (nat (n - int (length (Buffer_of_string s)))) 0),
               pos := pos w + n\<rparr>)"
proof -
  let ?bs = "Buffer_of_string s"
  have sg: "size_given (Some (string_opts (Some given))) = Some n"
    unfolding size_given_string_opts using sz pos by (simp add: size_given_def)
  show ?thesis
  proof (cases "int (length ?bs) > n")
    case True
    then have sl: "buffer_slice0 ?bs n = take (nat n) ?bs"
      using pos by (simp add: buffer_slice0_def Let_def)
    have len: "int (length (take (nat n) ?bs)) = n" using True pos by simp
    have "writeRaw (RBuffer (take (nat n) ?bs)) None w =
          Ok (w\<lparr>buffer := store_bytes (buffer w) (pos w) (take (nat n) ?bs), pos := pos w + n\<rparr>)"
      using writeRaw_buffer_fits [OF p, of "take (nat n) ?bs" None] fit len by simp
    with True show ?thesis by (simp add: writeString_def Let_def sg sl)
  next
    case False
    let ?pl = "?bs @ replicate (nat (n - int (length ?bs))) 0"
    have len: "int (length ?pl) = n" using False by simp
    have "writeRaw (RBuffer ?pl) None w =
          Ok (w\<lparr>buffer := store_bytes (buffer w) (pos w) ?pl, pos := pos w + n\<rparr>)"
      using writeRaw_buffer_fits [OF p, of ?pl None] fit len by simp
    with False show ?thesis by (simp add: writeString_def Let_def sg)
  qed
qed

lemma writeString_sized_null_ignored:
  assumes "size_opt given = Some n" and "n \<noteq> 0"
  shows "fst (writeString s (Some (given\<lparr>null_opt := b\<rparr>)) w) = fst (writeString s (Some given) w)"
proof -
  have "size_given (Some (string_opts (Some (given\<lparr>null_opt := b\<rparr>)))) = Some n"
    and "size_given (Some (string_opts (Some given))) = Some n"
    unfolding size_given_string_opts using assms by (simp_all add: size_given_def)
  then show ?thesis by (simp add: writeString_def Let_def)
qed

lemma writeInt_out_of_range:
  "\<not> Range_test UNSIGNED_RANGE_32 v \<Longrightarrow> writeInt v oo w = Throw RangeError w"
  by (simp add: writeInt_def)

lemma select_type_sized:
  assumes "size_opt given = Some s" and "s \<noteq> 0"
  shows "select_type e v (Some given) =
         (if s \<notin> {8, 16, 32} then Inl SizeError
          else Inr (bySize e (if v > 0 then Unsigned else Signed) s))"
  using assms by (simp add: select_type_def size_given_def INT_SIZES_def)

lemma bySize_entries:
  "bySize e Unsigned 8 = Some \<lparr>mmethod = WriteUInt8, mlength = 1, tmin = 0, tmax = 0xff\<rparr>"
  "bySize e Unsigned 16 = Some \<lparr>mmethod = WriteUInt16 e, mlength = 2, tmin = 0, tmax = 0xffff\<rparr>"
  "bySize e Unsigned 32 = Some \<lparr>mmethod = WriteUInt32 e, mlength = 4, tmin = 0, tmax = 0xffffffff\<rparr>"
  "bySize e Signed 8 = Some \<lparr>mmethod = WriteInt8, mlength = 1, tmin = - 0x80, tmax = 0x7f\<rparr>"
  "bySize e Signed 16 = Some \<lparr>mmethod = WriteInt16 e, mlength = 2, tmin = - 0x8000, tmax = 0x7fff\<rparr>"
  "bySize e Signed 32 = Some \<lparr>mmethod = WriteInt32 e, mlength = 4, tmin = - 0x80000000, tmax = 0x7fffffff\<rparr>"
  by (simp_all add: bySize_def generateMethodTable_def)

lemma zero_same_bytes:
  "call_method WriteInt8 buf 0 off = call_method WriteUInt8 buf 0 off"
  "call_method (WriteInt16 e) buf 0 off = call_method (WriteUInt16 e) buf 0 off"
  "call_method (WriteInt32 e) buf 0 off = call_method (WriteUInt32 e) buf 0 off"
  by (simp_all add: call_method_def)

lemma validate_first_not_number:
  "n < length xs \<Longrightarrow> (\<forall>j<n. \<exists>v. xs ! j = Num v \<and> - 128 \<le> v \<and> v \<le> 255) \<Longrightarrow>
   xs ! n = NotNum \<Longrightarrow> validate xs = Some ArrayTypeError"
proof (induction xs arbitrary: n)
  case Nil
  then show ?case by simp
next
  case (Cons x xs)
  show ?case
  proof (cases n)
    case 0
    with Cons.prems show ?thesis by simp
  next
    case (Suc m)
    from Cons.prems(2) Suc obtain v where v: "x = Num v" "- 128 \<le> v" "v \<le> 255"
      by fastforce
    have "\<forall>j<m. \<exists>u. xs ! j = Num u \<and> - 128 \<le> u \<and> u \<le> 255"
      using Cons.prems(2) Suc by fastforce
    moreover have "m < length xs" "xs ! m = NotNum" using Cons.prems Suc by simp_all
    ultimately have "validate xs = Some ArrayTypeError" using Cons.IH by blast
    with v show ?thesis by (simp add: Range_test_def UNSIGNED_RANGE_8_def)
  qed
qed

lemma validate_first_out_of_range:
  "n < length xs \<Longrightarrow> (\<forall>j<n. \<exists>v. xs ! j = Num v \<and> - 128 \<le> v \<and> v \<le> 255) \<Longrightarrow>
   xs ! n = Num u \<Longrightarrow> u < - 128 \<or> 255 < u \<Longrightarrow> validate xs = Some RangeError"
proof (induction xs arbitrary: n)
  case Nil
  then show ?case by simp
next
  case (Cons x xs)
  show ?case
  proof (cases n)
    case 0
    with Cons.prems show ?thesis by (auto simp add: Range_test_def UNSIGNED_RANGE_8_def)
  next
    case (Suc m)
    from Cons.prems(2) Suc obtain v where v: "x = Num v" "- 128 \<le> v" "v \<le> 255"
      by fastforce
    have "\<forall>j<m. \<exists>u. xs ! j = Num u \<and> - 128 \<le> u \<and> u \<le> 255"
      using Cons.prems(2) Suc by fastforce
    moreover have "m < length xs" "xs ! m = Num u" using Cons.prems Suc by simp_all
    ultimately have "validate xs = Some RangeError" using Cons.IH Cons.prems(4) by blast
    with v show ?thesis by (simp add: Range_test_def UNSIGNED_RANGE_8_def)
  qed
qed

lemma writeRaw_unsafe_unchanged:
  "\<not> safe_given oo \<Longrightarrow> \<exists>e. writeRaw (RArray xs) oo w = Throw e w"
  by (simp add: writeRaw_def split: option.splits)

lemma writeRaw_unsafe_valid_list:
  "\<not> safe_given oo \<Longrightarrow> validate xs = None \<Longrightarrow> writeRaw (RArray xs) oo w = Throw ReferenceError w"
  by (simp add: writeRaw_def)

lemma position_setter:
  "position p w = (if 0 \<le> p \<and> p \<le> wlength w then Ok (w\<lparr>pos := p\<rparr>) else Throw RangeError w)"
  by (auto simp add: position_def)

lemma select_type_auto_total:
  assumes "Range_test UNSIGNED_RANGE_32 v" and "size_given oo = None"
  shows "\<exists>t. select_type e v oo = Inr (Some t)"
proof -
  have "\<exists>m \<in> set (generateMethodTable e). test m v"
    using assms(1)
    by (cases "0 \<le> v")
       (auto simp add: generateMethodTable_def test_def between_def Range_test_def UNSIGNED_RANGE_32_def)
  then have "filter (\<lambda>m. test m v) (generateMethodTable e) \<noteq> []"
    by (simp add: filter_empty_conv)
  with assms(2) show ?thesis
    by (auto simp add: select_type_def split: list.splits)
qed

lemma select_type_valid_size_total:
  assumes "size_given oo = Some s" and "s \<in> {8, 16, 32}"
  shows "\<exists>t. select_type e v oo = Inr (Some t)"
  using assms by (auto simp add: select_type_def INT_SIZES_def bySize_entries)

lemma writeInt_full:
  assumes "remaining w = 0" and "Range_test UNSIGNED_RANGE_32 v"
    and "select_type (endianness w) v oo = Inr (Some t)"
  shows "writeInt v oo w = Throw OverflowError w"
proof -
  from select_type_mem [OF assms(3)] have "0 < mlength t" by (rule table_mem(2))
  with assms show ?thesis by (simp add: writeInt_def)
qed

lemma copyBuffer_full:
  assumes "remaining w = 0" and "bs \<noteq> []"
  shows "copyBuffer bs w = Throw (if wlength w = 0 then RangeError else TargetStartError) w"
proof -
  from assms(1) have p: "pos w = int (length (buffer w))"
    by (simp add: remaining_def wlength_def)
  show ?thesis
  proof (cases "length (buffer w) = 0")
    case True
    with assms p show ?thesis
      by (simp add: copyBuffer_def buffer_copy_def move_def position_def wlength_def)
  next
    case False
    with assms p show ?thesis
      by (simp add: copyBuffer_def buffer_copy_def Let_def wlength_def)
  qed
qed

lemma writeString_sized_eq:
  assumes "size_given oo = Some n"
  shows "fst (writeString s oo w) =
         copyBuffer
           (if int (length (Buffer_of_string s)) > n then buffer_slice0 (Buffer_of_string s) n
            else Buffer_of_string s @ replicate (nat (n - int (length (Buffer_of_string s)))) 0) w"
proof -
  have "size_given (Some (string_opts oo)) = Some n"
    unfolding size_given_string_opts by (rule assms)
  then show ?thesis by (simp add: writeString_def Let_def writeRaw_def)
qed

lemma sized_payload_length:
  assumes "0 < n"
  shows "int (length (if int (length bs) > n then buffer_slice0 bs n
                      else bs @ replicate (nat (n - int (length bs))) 0)) = n"
  using assms by (auto simp add: buffer_slice0_def Let_def)

lemma writeString_unsized_Throw:
  assumes "0 \<le> pos w" and "size_given oo = None" and "fst (writeString s oo w) = Throw e w'"
  shows "w' = w"
proof (cases "int (length (Buffer_of_string s)) > remaining w")
  case True
  from writeString_unsized_overflow [OF assms(2) True] assms(3) show ?thesis by simp
next
  case False
  then have "int (length (Buffer_of_string s)) \<le> remaining w" by simp
  from writeString_unsized_fits [OF assms(1,2) this] assms(3) show ?thesis
    by (simp add: Let_def)
qed

lemma writeString_unsized_Ok:
  assumes "0 \<le> pos w" and "size_given oo = None" and "fst (writeString s oo w) = Ok w'"
  shows "remaining w' =
         remaining w - int (length (Buffer_of_string s)) -
         (if (\<forall>given. oo = Some given \<longrightarrow> null_opt given \<noteq> Some False) \<and>
             int (length (Buffer_of_string s)) < remaining w then 1 else 0)"
proof (cases "int (length (Buffer_of_string s)) > remaining w")
  case True
  from writeString_unsized_overflow [OF assms(2) True] assms(3) show ?thesis by simp
next
  case False
  then have "int (length (Buffer_of_string s)) \<le> remaining w" by simp
  from writeString_unsized_fits [OF assms(1,2) this] assms(3) show ?thesis
    by (auto simp add: Let_def remaining_def wlength_def length_store_bytes split: if_splits)
qed

lemma remaining_eq:
  "length (buffer w') = length (buffer w) \<Longrightarrow> pos w' = pos w + k \<Longrightarrow>
   remaining w' = remaining w - k"
  by (simp add: remaining_def wlength_def)

text \<open>
  The bound \<open>0 \<le> cursor \<le> length\<close> is kept, on success and on failure, by \<open>position\<close>,
  \<open>move\<close>, \<open>reset\<close>, \<open>writeInt\<close>, \<open>writeString\<close>, the raw write of a buffer and the raw
  write of a list without \<^verbatim>\<open>safe: true\<close>.
\<close>

lemma position_keeps_bound:
  assumes "0 \<le> pos w" and "pos w \<le> wlength w"
  shows "0 \<le> pos (writer_of (position p w)) \<and>
         pos (writer_of (position p w)) \<le> wlength (writer_of (position p w)) \<and>
         wlength (writer_of (position p w)) = wlength w"
  using assms by (simp add: position_def wlength_def)

lemma copyBuffer_keeps_bound:
  assumes "0 \<le> pos w" and "pos w \<le> wlength w"
  shows "0 \<le> pos (writer_of (copyBuffer bs w)) \<and>
         pos (writer_of (copyBuffer bs w)) \<le> wlength (writer_of (copyBuffer bs w)) \<and>
         wlength (writer_of (copyBuffer bs w)) = wlength w"
proof (cases "buffer_copy bs (buffer w) (pos w)")
  case (Inl e)
  with assms show ?thesis by (simp add: copyBuffer_def)
next
  case (Inr b)
  then have "length b = length (buffer w)"
    by (auto simp add: buffer_copy_def Let_def length_store_bytes split: if_splits)
  then have "0 \<le> pos (w\<lparr>buffer := b\<rparr>)" "pos (w\<lparr>buffer := b\<rparr>) \<le> wlength (w\<lparr>buffer := b\<rparr>)"
    "wlength (w\<lparr>buffer := b\<rparr>) = wlength w"
    using assms by (simp_all add: wlength_def)
  with position_keeps_bound [of "w\<lparr>buffer := b\<rparr>" "pos w + int (length bs)"] Inr
  show ?thesis by (simp add: copyBuffer_def move_def)
qed

lemma writeInt_keeps_bound:
  assumes "0 \<le> pos w" and "pos w \<le> wlength w"
  shows "0 \<le> pos (writer_of (writeInt v oo w)) \<and>
         pos (writer_of (writeInt v oo w)) \<le> wlength (writer_of (writeInt v oo w)) \<and>
         wlength (writer_of (writeInt v oo w)) = wlength w"
proof (cases "writeInt v oo w")
  case (Ok w')
  from writeInt_Ok [OF Ok] obtain t where
    t: "select_type (endianness w) v oo = Inr (Some t)" "pos w' = pos w + mlength t"
      "length (buffer w') = length (buffer w)" by blast
  from select_type_mem [OF t(1)] have "0 < mlength t" by (rule table_mem(2))
  moreover from Ok t(1) have "\<not> mlength t > remaining w"
    by (auto simp add: writeInt_def split: if_splits)
  ultimately show ?thesis using Ok t assms by (simp add: remaining_def wlength_def)
next
  case (Throw e w')
  from writeInt_Throw [OF assms(1) Throw] Throw assms show ?thesis by simp
qed

lemma writeString_keeps_bound:
  assumes "0 \<le> pos w" and "pos w \<le> wlength w"
  shows "0 \<le> pos (writer_of (fst (writeString s oo w))) \<and>
         pos (writer_of (fst (writeString s oo w))) \<le> wlength (writer_of (fst (writeString s oo w))) \<and>
         wlength (writer_of (fst (writeString s oo w))) = wlength w"
proof (cases "size_given oo")
  case (Some n)
  show ?thesis
    unfolding writeString_sized_eq [OF Some] by (rule copyBuffer_keeps_bound [OF assms])
next
  case None
  show ?thesis
  proof (cases "int (length (Buffer_of_string s)) > remaining w")
    case True
    from writeString_unsized_overflow [OF None True] assms show ?thesis by simp
  next
    case False
    then have fit: "int (length (Buffer_of_string s)) \<le> remaining w" by simp
    from writeString_unsized_fits [OF assms(1) None fit] assms fit show ?thesis
      by (auto simp add: Let_def remaining_def wlength_def length_store_bytes)
  qed
qed

lemma cursor_bound_kept:
  assumes "0 \<le> pos w" and "pos w \<le> wlength w"
    and "r = position p w \<or> r = move a w \<or> r = reset w \<or> r = writeInt v oo w \<or>
         r = fst (writeString s oo w) \<or> r = writeRaw (RBuffer bs) oo w \<or>
         (r = writeRaw (RArray xs) oo w \<and> \<not> safe_given oo)"
  shows "0 \<le> pos (writer_of r) \<and> pos (writer_of r) \<le> wlength (writer_of r)"
proof -
  have rs: "0 \<le> pos (writer_of (reset w)) \<and> pos (writer_of (reset w)) \<le> wlength (writer_of (reset w))"
    by (simp add: reset_def position_def wlength_def)
  have ul: "0 \<le> pos (writer_of (writeRaw (RArray xs) oo w)) \<and>
            pos (writer_of (writeRaw (RArray xs) oo w)) \<le> wlength (writer_of (writeRaw (RArray xs) oo w))"
    if "\<not> safe_given oo"
    using writeRaw_unsafe_unchanged [OF that, of xs w] assms(1,2) by auto
  have rb: "writeRaw (RBuffer bs) oo w = copyBuffer bs w" by (simp add: writeRaw_def)
  from assms(3) position_keeps_bound [OF assms(1,2), of p]
    position_keeps_bound [OF assms(1,2), of "pos w + a"] rs
    writeInt_keeps_bound [OF assms(1,2), of v oo] writeString_keeps_bound [OF assms(1,2), of s oo]
    copyBuffer_keeps_bound [OF assms(1,2), of bs] ul rb
  show ?thesis by (auto simp add: move_def)
qed

lemma select_type_auto_entry:
  assumes "- (2 ^ 31) \<le> v" and "v < 2 ^ 31" and "size_given oo = None"
  shows "select_type e v oo =
         Inr (Some
           (if 0 \<le> v \<and> v \<le> 0xff then \<lparr>mmethod = WriteUInt8, mlength = 1, tmin = 0, tmax = 0xff\<rparr>
            else if 0 \<le> v \<and> v \<le> 0xffff
              then \<lparr>mmethod = WriteUInt16 e, mlength = 2, tmin = 0, tmax = 0xffff\<rparr>
            else if 0 \<le> v
              then \<lparr>mmethod = WriteUInt32 e, mlength = 4, tmin = 0, tmax = 0xffffffff\<rparr>
            else if - 0x80 \<le> v
              then \<lparr>mmethod = WriteInt8, mlength = 1, tmin = - 0x80, tmax = 0x7f\<rparr>
            else if - 0x8000 \<le> v
              then \<lparr>mmethod = WriteInt16 e, mlength = 2, tmin = - 0x8000, tmax = 0x7fff\<rparr>
            else \<lparr>mmethod = WriteInt32 e, mlength = 4, tmin = - 0x80000000, tmax = 0x7fffffff\<rparr>))"
  using assms
  by (simp add: select_type_def generateMethodTable_def test_def between_def)

lemma int_bytes_one: "int_bytes e (Suc 0) v = [word_of_int v]"
  by (cases e) (simp_all add: int_bytes_def)

lemma writeInt_selected:
  assumes r: "Range_test UNSIGNED_RANGE_32 v"
    and t: "select_type (endianness w) v oo = Inr (Some t)"
    and lo: "method_min (mmethod t) \<le> v" and hi: "v \<le> method_max (mmethod t)"
    and p: "0 \<le> pos w"
  shows "writeInt v oo w =
         (if mlength t > remaining w then Throw OverflowError w
          else Ok (w\<lparr>buffer := store_bytes (buffer w) (pos w)
                       (int_bytes (method_endian (mmethod t)) (method_bytes (mmethod t)) v),
                    pos := pos w + mlength t\<rparr>))"
proof (cases "mlength t > remaining w")
  case True
  with r t show ?thesis by (simp add: writeInt_def)
next
  case False
  from select_type_mem [OF t] have m: "mlength t = int (method_bytes (mmethod t))" "0 < mlength t"
    by (rule table_mem)+
  from False m(1) have inside: "pos w + (int (method_bytes (mmethod t)) - 1) < int (length (buffer w))"
    by (simp add: remaining_def wlength_def)
  have cm: "call_method (mmethod t) (buffer w) v (pos w) =
      Inr (store_bytes (buffer w) (pos w)
             (int_bytes (method_endian (mmethod t)) (method_bytes (mmethod t)) v))"
    using inside lo hi by (simp add: call_method_def)
  have mv: "move (mlength t) (w\<lparr>buffer := b\<rparr>) = Ok (w\<lparr>buffer := b, pos := pos w + mlength t\<rparr>)"
    if "length b = length (buffer w)" for b
    using that False m(2) p by (simp add: move_def position_def remaining_def wlength_def)
  from r t False show ?thesis
    by (simp add: writeInt_def cm mv length_store_bytes)
qed

lemma writeInt_auto_result:
  assumes lo: "- (2 ^ 31) \<le> v" and hi: "v < 2 ^ 31" and sz: "size_given oo = None"
    and p: "0 \<le> pos w"
  shows "writeInt v oo w =
         (let n = (if 0 \<le> v \<and> v \<le> 0xff then 1
                   else if 0 \<le> v \<and> v \<le> 0xffff then 2
                   else if 0 \<le> v then 4
                   else if - 0x80 \<le> v then 1
                   else if - 0x8000 \<le> v then 2
                   else 4)
          in if int n > remaining w then Throw OverflowError w
             else Ok (w\<lparr>buffer := store_bytes (buffer w) (pos w) (int_bytes (endianness w) n v),
                       pos := pos w + int n\<rparr>))"
proof -
  have r: "Range_test UNSIGNED_RANGE_32 v"
    using lo hi by (simp add: Range_test_def UNSIGNED_RANGE_32_def)
  note sel = select_type_auto_entry [OF lo hi sz, of "endianness w"]
  consider "0 \<le> v \<and> v \<le> 0xff" | "0xff < v \<and> v \<le> 0xffff" | "0xffff < v"
    | "- 0x80 \<le> v \<and> v < 0" | "- 0x8000 \<le> v \<and> v < - 0x80" | "v < - 0x8000"
    by linarith
  then show ?thesis
  proof cases
    case 1
    then have s: "select_type (endianness w) v oo =
        Inr (Some \<lparr>mmethod = WriteUInt8, mlength = 1, tmin = 0, tmax = 0xff\<rparr>)"
      using sel by simp
    from writeInt_selected [OF r s _ _ p] 1 show ?thesis
      by (simp add: Let_def int_bytes_one)
  next
    case 2
    then have s: "select_type (endianness w) v oo =
        Inr (Some \<lparr>mmethod = WriteUInt16 (endianness w), mlength = 2, tmin = 0, tmax = 0xffff\<rparr>)"
      using sel by simp
    from writeInt_selected [OF r s _ _ p] 2 show ?thesis
      by (simp add: Let_def)
  next
    case 3
    then have s: "select_type (endianness w) v oo =
        Inr (Some \<lparr>mmethod = WriteUInt32 (endianness w), mlength = 4, tmin = 0, tmax = 0xffffffff\<rparr>)"
      using sel by simp
    from writeInt_selected [OF r s _ _ p] 3 hi show ?thesis
      by (simp add: Let_def)
  next
    case 4
    then have s: "select_type (endianness w) v oo =
        Inr (Some \<lparr>mmethod = WriteInt8, mlength = 1, tmin = - 0x80, tmax = 0x7f\<rparr>)"
      using sel by simp
    from writeInt_selected [OF r s _ _ p] 4 show ?thesis
      by (simp add: Let_def int_bytes_one)
  next
    case 5
    then have s: "select_type (endianness w) v oo =
        Inr (Some \<lparr>mmethod = WriteInt16 (endianness w), mlength = 2, tmin = - 0x8000, tmax = 0x7fff\<rparr>)"
      using sel by simp
    from writeInt_selected [OF r s _ _ p] 5 show ?thesis
      by (simp add: Let_def)
  next
    case 6
    then have s: "select_type (endianness w) v oo =
        Inr (Some \<lparr>mmethod = WriteInt32 (endianness w), mlength = 4, tmin = - 0x80000000, tmax = 0x7fffffff\<rparr>)"
      using sel by simp
    from writeInt_selected [OF r s _ _ p] 6 lo show ?thesis
      by (simp add: Let_def)
  qed
qed

lemma le_bytes_map: "le_bytes n v = map (\<lambda>i. word_of_int (v div 256 ^ i)) [0..<n]"
proof (induction n arbitrary: v)
  case 0
  show ?case by simp
next
  case (Suc n)
  have "[0..<Suc n] = 0 # map Suc [0..<n]"
    by (simp add: upt_conv_Cons map_Suc_upt del: upt_Suc)
  moreover have "v div 256 div 256 ^ i = v div 256 ^ Suc i" for i
    by (simp add: zdiv_zmult2_eq)
  ultimately show ?case using Suc.IH [of "v div 256"] by (simp add: comp_def del: upt_Suc)
qed

lemma sized_payload_bytes:
  assumes "n \<noteq> 0"
  shows "int (length (if int (length bs) > n then buffer_slice0 bs n
                      else bs @ replicate (nat (n - int (length bs))) 0)) =
         (if 0 < n then n else max 0 (int (length bs) + n))"
  using assms by (auto simp add: buffer_slice0_def Let_def)

section \<open>Integer writes: the choice of the encoding\<close>

text \<open>
  Claim C1. For every integer \<open>v\<close> with \<open>-2^31 \<le> v < 2^31\<close> written by \<^verbatim>\<open>writeInt\<close>
  (or by \<^verbatim>\<open>write\<close>, which hands a number on to \<^verbatim>\<open>writeInt\<close> with the same arguments)
  without an explicit size, the entry selected is the first one of the table, in the order
  unsigned 8, unsigned 16, unsigned 32, signed 8, signed 16, signed 32, whose range
  contains \<open>v\<close>: unsigned 8 for \<open>0 \<le> v \<le> 255\<close>, unsigned 16 for \<open>256 \<le> v \<le> 65535\<close>,
  unsigned 32 for \<open>65536 \<le> v\<close>, signed 8 for \<open>-128 \<le> v < 0\<close>, signed 16 for
  \<open>-32768 \<le> v < -128\<close> and signed 32 below. On a writer whose cursor is not negative the
  write then fails with an OverflowError when the width exceeds \<open>remaining()\<close>, and
  otherwise stores the bytes of \<open>v\<close> in that width and the writer's byte order at the
  cursor and moves the cursor by the width. On a fresh big-endian writer of length 4,
  \<^verbatim>\<open>write(300)\<close> selects unsigned 16 and leaves the bytes \<open>01 2C 00 00\<close> with the cursor
  at 2.
\<close>

theorem C1_auto_select_first_fit:
  assumes "- (2 ^ 31) \<le> v" and "v < 2 ^ 31" and "size_given oo = None"
  shows "generateMethodTable e =
           [ \<lparr>mmethod = WriteUInt8, mlength = 1, tmin = 0, tmax = 255\<rparr>,
             \<lparr>mmethod = WriteUInt16 e, mlength = 2, tmin = 0, tmax = 65535\<rparr>,
             \<lparr>mmethod = WriteUInt32 e, mlength = 4, tmin = 0, tmax = 4294967295\<rparr>,
             \<lparr>mmethod = WriteInt8, mlength = 1, tmin = - 128, tmax = 127\<rparr>,
             \<lparr>mmethod = WriteInt16 e, mlength = 2, tmin = - 32768, tmax = 32767\<rparr>,
             \<lparr>mmethod = WriteInt32 e, mlength = 4, tmin = - 2147483648, tmax = 2147483647\<rparr> ] \<and>
         test m v = (tmin m \<le> v \<and> v \<le> tmax m) \<and>
         (\<exists>i<6. select_type e v oo = Inr (Some (generateMethodTable e ! i)) \<and>
                test (generateMethodTable e ! i) v \<and>
                (\<forall>j<i. \<not> test (generateMethodTable e ! j) v)) \<and>
         select_type e v oo =
           Inr (Some
             (if 0 \<le> v \<and> v \<le> 255 then \<lparr>mmethod = WriteUInt8, mlength = 1, tmin = 0, tmax = 255\<rparr>
              else if 0 \<le> v \<and> v \<le> 65535
                then \<lparr>mmethod = WriteUInt16 e, mlength = 2, tmin = 0, tmax = 65535\<rparr>
              else if 0 \<le> v
                then \<lparr>mmethod = WriteUInt32 e, mlength = 4, tmin = 0, tmax = 4294967295\<rparr>
              else if - 128 \<le> v
                then \<lparr>mmethod = WriteInt8, mlength = 1, tmin = - 128, tmax = 127\<rparr>
              else if - 32768 \<le> v
                then \<lparr>mmethod = WriteInt16 e, mlength = 2, tmin = - 32768, tmax = 32767\<rparr>
              else \<lparr>mmethod = WriteInt32 e, mlength = 4, tmin = - 2147483648, tmax = 2147483647\<rparr>)) \<and>
         (0 \<le> pos w \<longrightarrow>
            writeInt v oo w =
              (let n = (if 0 \<le> v \<and> v \<le> 255 then 1
                        else if 0 \<le> v \<and> v \<le> 65535 then 2
                        else if 0 \<le> v then 4
                        else if - 128 \<le> v then 1
                        else if - 32768 \<le> v then 2
                        else 4)
               in if int n > remaining w then Throw OverflowError w
                  else Ok (w\<lparr>buffer := take (nat (pos w)) (buffer w) @
                                      int_bytes (endianness w) n v @
                                      drop (nat (pos w) + n) (buffer w),
                            pos := pos w + int n\<rparr>))) \<and>
         int_bytes LE k v = map (\<lambda>i. word_of_int (v div 256 ^ i)) [0..<k] \<and>
         int_bytes BE k v = rev (map (\<lambda>i. word_of_int (v div 256 ^ i)) [0..<k]) \<and>
         fst (write_any (DNumber v) oo w) = writeInt v oo w \<and>
         select_type BE 300 None =
           Inr (Some \<lparr>mmethod = WriteUInt16 BE, mlength = 2, tmin = 0, tmax = 0xffff\<rparr>) \<and>
         fst (write_any (DNumber 300) None (BitWriter 4 BE)) =
           Ok \<lparr>buffer = [0x01, 0x2C, 0x00, 0x00], pos = 2, endianness = BE\<rparr>"
proof -
  let ?n = "if 0 \<le> v \<and> v \<le> 255 then 1
            else if 0 \<le> v \<and> v \<le> 65535 then 2
            else if 0 \<le> v then 4
            else if - 128 \<le> v then 1
            else if - 32768 \<le> v then 2
            else (4 :: nat)"
  have tbl: "generateMethodTable e =
      [ \<lparr>mmethod = WriteUInt8, mlength = 1, tmin = 0, tmax = 255\<rparr>,
        \<lparr>mmethod = WriteUInt16 e, mlength = 2, tmin = 0, tmax = 65535\<rparr>,
        \<lparr>mmethod = WriteUInt32 e, mlength = 4, tmin = 0, tmax = 4294967295\<rparr>,
        \<lparr>mmethod = WriteInt8, mlength = 1, tmin = - 128, tmax = 127\<rparr>,
        \<lparr>mmethod = WriteInt16 e, mlength = 2, tmin = - 32768, tmax = 32767\<rparr>,
        \<lparr>mmethod = WriteInt32 e, mlength = 4, tmin = - 2147483648, tmax = 2147483647\<rparr> ]"
    by (simp add: generateMethodTable_def)
  have tst: "test m v = (tmin m \<le> v \<and> v \<le> tmax m)"
    by (simp add: test_def between_def)
  have ent: "select_type e v oo =
      Inr (Some
        (if 0 \<le> v \<and> v \<le> 255 then \<lparr>mmethod = WriteUInt8, mlength = 1, tmin = 0, tmax = 255\<rparr>
         else if 0 \<le> v \<and> v \<le> 65535
           then \<lparr>mmethod = WriteUInt16 e, mlength = 2, tmin = 0, tmax = 65535\<rparr>
         else if 0 \<le> v
           then \<lparr>mmethod = WriteUInt32 e, mlength = 4, tmin = 0, tmax = 4294967295\<rparr>
         else if - 128 \<le> v
           then \<lparr>mmethod = WriteInt8, mlength = 1, tmin = - 128, tmax = 127\<rparr>
         else if - 32768 \<le> v
           then \<lparr>mmethod = WriteInt16 e, mlength = 2, tmin = - 32768, tmax = 32767\<rparr>
         else \<lparr>mmethod = WriteInt32 e, mlength = 4, tmin = - 2147483648, tmax = 2147483647\<rparr>))"
    using select_type_auto_entry [OF assms, of e] by simp
  have wr: "writeInt v oo w =
      (if int ?n > remaining w then Throw OverflowError w
       else Ok (w\<lparr>buffer := take (nat (pos w)) (buffer w) @ int_bytes (endianness w) ?n v @
                           drop (nat (pos w) + ?n) (buffer w),
                 pos := pos w + int ?n\<rparr>))"
    if p: "0 \<le> pos w"
  proof (cases "int ?n > remaining w")
    case True
    with writeInt_auto_result [OF assms p] show ?thesis by (simp only: Let_def if_True)
  next
    case False
    have len: "length (int_bytes (endianness w) ?n v) = ?n"
      by (cases "endianness w") (simp_all add: int_bytes_def le_bytes_map)
    from False have bound: "pos w + int (length (int_bytes (endianness w) ?n v)) \<le> int (length (buffer w))"
      by (simp only: len) (simp add: remaining_def wlength_def)
    have "store_bytes (buffer w) (pos w) (int_bytes (endianness w) ?n v) =
          take (nat (pos w)) (buffer w) @ int_bytes (endianness w) ?n v @
          drop (nat (pos w) + length (int_bytes (endianness w) ?n v)) (buffer w)"
      by (rule store_bytes_eq [OF p bound])
    then have eq: "store_bytes (buffer w) (pos w) (int_bytes (endianness w) ?n v) =
          take (nat (pos w)) (buffer w) @ int_bytes (endianness w) ?n v @
          drop (nat (pos w) + ?n) (buffer w)"
      by (simp only: len)
    from False writeInt_auto_result [OF assms p] show ?thesis
      by (simp only: Let_def if_False eq)
  qed
  have ble: "int_bytes LE k v = map (\<lambda>i. word_of_int (v div 256 ^ i)) [0..<k]"
    and bbe: "int_bytes BE k v = rev (map (\<lambda>i. word_of_int (v div 256 ^ i)) [0..<k])"
    by (simp_all add: int_bytes_def le_bytes_map)
  have ex1: "select_type BE 300 None =
      Inr (Some \<lparr>mmethod = WriteUInt16 BE, mlength = 2, tmin = 0, tmax = 0xffff\<rparr>)"
    by code_simp
  have ex2: "fst (write_any (DNumber 300) None (BitWriter 4 BE)) =
      Ok \<lparr>buffer = [0x01, 0x2C, 0x00, 0x00], pos = 2, endianness = BE\<rparr>"
    by code_simp
  have disp: "fst (write_any (DNumber v) oo w) = writeInt v oo w"
    by (simp add: write_any_def)
  from tbl tst select_type_auto [OF assms, of e] ent wr ble bbe disp ex1 ex2
  show ?thesis by (simp only: Let_def) blast
qed

theorem C1_auto_select_witness:
  "select_type LE (- 200) None =
     Inr (Some \<lparr>mmethod = WriteInt16 LE, mlength = 2, tmin = - 32768, tmax = 32767\<rparr>) \<and>
   writeInt (- 200) None (BitWriter 4 LE) =
     Ok \<lparr>buffer = [0x38, 0xFF, 0x00, 0x00], pos = 2, endianness = LE\<rparr> \<and>
   writeInt 70000 None \<lparr>buffer = [0x07, 0x08, 0x09], pos = 1, endianness = BE\<rparr> =
     Throw OverflowError \<lparr>buffer = [0x07, 0x08, 0x09], pos = 1, endianness = BE\<rparr>"
proof -
  have ev: "int_bytes LE 2 (- 200) = [0x38, 0xFF]" by code_simp
  have rp: "replicate 2 (0 :: byte) = [0, 0]" by (simp add: numeral_2_eq_2)
  from C1_auto_select_first_fit [where v = "- 200" and oo = None and e = LE and w = "BitWriter 4 LE"]
    C1_auto_select_first_fit [where v = 70000 and oo = None and e = BE
      and w = "\<lparr>buffer = [0x07, 0x08, 0x09], pos = 1, endianness = BE\<rparr>"]
  show ?thesis
    by (simp add: size_given_def BitWriter_def remaining_def wlength_def ev rp)
qed

section \<open>The options object of a string write\<close>

text \<open>
  Claim C10. When \<^verbatim>\<open>writeString(s, opts)\<close> is called with an options object that has no
  \<^verbatim>\<open>null\<close> key, the call sets \<^verbatim>\<open>opts.null = true\<close> on the caller's object: after the
  call the object is the one passed with \<open>null\<close> set, which differs from the one passed,
  whatever the string, the writer and the outcome of the write.
\<close>

theorem C10_writeString_sets_null_on_opts:
  assumes "null_opt given = None"
  shows "snd (writeString s (Some given) w) = Some (given\<lparr>null_opt := Some True\<rparr>) \<and>
         given\<lparr>null_opt := Some True\<rparr> \<noteq> given"
proof -
  have "null_opt (given\<lparr>null_opt := Some True\<rparr>) \<noteq> null_opt given" using assms by simp
  then have "given\<lparr>null_opt := Some True\<rparr> \<noteq> given" by metis
  with assms show ?thesis by (simp add: writeString_def string_opts_def Let_def)
qed

theorem C10_writeString_sets_null_witness:
  "snd (writeString ''hi'' (Some \<lparr>size_opt = Some 4, null_opt = None, safe_opt = None\<rparr>)
          (BitWriter 5 BE)) =
     Some \<lparr>size_opt = Some 4, null_opt = Some True, safe_opt = None\<rparr>"
  using C10_writeString_sets_null_on_opts
    [of "\<lparr>size_opt = Some 4, null_opt = None, safe_opt = None\<rparr>" "''hi''" "BitWriter 5 BE"]
  by simp

section \<open>String writes\<close>

text \<open>
  Claim C7. A string write without an explicit size, on a writer whose cursor is not
  negative: when the encoded text is longer than \<open>remaining()\<close> the write fails with an
  OverflowError and the writer is as before; otherwise the bytes of the text are written at
  the cursor and, unless \<^verbatim>\<open>null\<close> is explicitly \<^verbatim>\<open>false\<close>, one zero byte follows them
  exactly when room is left after the text (no terminator and no error when the text fills
  the buffer). On a fresh writer of length 5, \<^verbatim>\<open>writeString("hi")\<close> writes \<open>h\<close>, \<open>i\<close>,
  \<open>0x00\<close> and leaves \<open>remaining() = 2\<close>.
\<close>

theorem C7_writeString_without_size:
  assumes "0 \<le> pos w" and "size_given oo = None"
  shows "(int (length (Buffer_of_string s)) > remaining w \<longrightarrow>
            fst (writeString s oo w) = Throw OverflowError w) \<and>
         (int (length (Buffer_of_string s)) \<le> remaining w \<longrightarrow>
            fst (writeString s oo w) =
              (let bs = Buffer_of_string s;
                   terminator =
                     (if (\<forall>given. oo = Some given \<longrightarrow> null_opt given \<noteq> Some False) \<and>
                         int (length bs) < remaining w
                      then [0] else [])
               in Ok (w\<lparr>buffer := take (nat (pos w)) (buffer w) @ bs @ terminator @
                                   drop (nat (pos w) + length bs + length terminator) (buffer w),
                        pos := pos w + int (length bs) + int (length terminator)\<rparr>))) \<and>
         fst (writeString ''hi'' None (BitWriter 5 BE)) =
           Ok \<lparr>buffer = [0x68, 0x69, 0x00, 0x00, 0x00], pos = 3, endianness = BE\<rparr> \<and>
         remaining \<lparr>buffer = [0x68, 0x69, 0x00, 0x00, 0x00], pos = 3, endianness = BE\<rparr> = 2"
proof -
  let ?bs = "Buffer_of_string s"
  let ?t = "if (\<forall>given. oo = Some given \<longrightarrow> null_opt given \<noteq> Some False) \<and>
               int (length ?bs) < remaining w then [0] else []"
  have over: "int (length ?bs) > remaining w \<longrightarrow> fst (writeString s oo w) = Throw OverflowError w"
    using writeString_unsized_overflow [OF assms(2)] by blast
  have fits: "fst (writeString s oo w) =
      Ok (w\<lparr>buffer := take (nat (pos w)) (buffer w) @ ?bs @ ?t @
                         drop (nat (pos w) + length ?bs + length ?t) (buffer w),
            pos := pos w + int (length ?bs) + int (length ?t)\<rparr>)"
    if fit: "int (length ?bs) \<le> remaining w"
  proof (cases "(\<forall>given. oo = Some given \<longrightarrow> null_opt given \<noteq> Some False) \<and>
                int (length ?bs) < remaining w")
    case True
    then have bound: "pos w + int (length (?bs @ [0])) \<le> int (length (buffer w))"
      by (simp add: remaining_def wlength_def)
    have "store_bytes (buffer w) (pos w) (?bs @ [0]) =
          take (nat (pos w)) (buffer w) @ (?bs @ [0]) @
          drop (nat (pos w) + length (?bs @ [0])) (buffer w)"
      by (rule store_bytes_eq [OF assms(1) bound])
    with True show ?thesis
      using writeString_unsized_fits [OF assms fit] by (simp add: Let_def)
  next
    case False
    have bound: "pos w + int (length ?bs) \<le> int (length (buffer w))"
      using fit by (simp add: remaining_def wlength_def)
    have "store_bytes (buffer w) (pos w) ?bs =
          take (nat (pos w)) (buffer w) @ ?bs @ drop (nat (pos w) + length ?bs) (buffer w)"
      by (rule store_bytes_eq [OF assms(1) bound])
    with False show ?thesis
      using writeString_unsized_fits [OF assms fit] by (auto simp add: Let_def)
  qed
  have ex1: "fst (writeString ''hi'' None (BitWriter 5 BE)) =
      Ok \<lparr>buffer = [0x68, 0x69, 0x00, 0x00, 0x00], pos = 3, endianness = BE\<rparr>"
    by code_simp
  have ex2: "remaining \<lparr>buffer = [0x68, 0x69, 0x00, 0x00, 0x00], pos = 3, endianness = BE\<rparr> = 2"
    by (simp add: remaining_def wlength_def)
  from over fits ex1 ex2 show ?thesis by (simp only: Let_def) blast
qed

theorem C7_writeString_without_size_witness:
  "fst (writeString ''hi'' None (BitWriter 2 BE)) =
     Ok \<lparr>buffer = [0x68, 0x69], pos = 2, endianness = BE\<rparr> \<and>
   fst (writeString ''hi'' None (BitWriter 1 BE)) = Throw OverflowError (BitWriter 1 BE)"
  using C7_writeString_without_size [of "BitWriter 2 BE" None "''hi''"]
    C7_writeString_without_size [of "BitWriter 1 BE" None "''hi''"]
  by (simp add: BitWriter_def remaining_def wlength_def Buffer_of_string_def size_given_def)

text \<open>
  Claim C6 says that a string write with an explicit size \<open>N\<close> always writes exactly \<open>N\<close>
  bytes. The sized path has no capacity check: on a writer of length 2,
  \<^verbatim>\<open>writeString("abc", {size: 3})\<close> copies the two bytes that fit and then fails in
  \<^verbatim>\<open>move\<close> with a RangeError.
\<close>

theorem C6_sized_string_counterexample:
  "fst (writeString ''abc'' (Some \<lparr>size_opt = Some 3, null_opt = None, safe_opt = None\<rparr>)
          (BitWriter 2 BE)) =
     Throw RangeError \<lparr>buffer = [0x61, 0x62], pos = 0, endianness = BE\<rparr>"
  by code_simp

text \<open>
  Claim C6, amended. A string write with an explicit size \<open>N\<close>, \<open>0 < N \<le> remaining()\<close>, on
  a writer whose cursor is not negative, writes exactly \<open>N\<close> bytes at the cursor and moves
  the cursor by \<open>N\<close>: the first \<open>N\<close> bytes of the text when the text is longer than \<open>N\<close>,
  and otherwise the text followed by zero bytes up to \<open>N\<close>. For every explicit size other
  than 0 the \<^verbatim>\<open>null\<close> option does not change the outcome.
\<close>

theorem C6_sized_string_exactly_n:
  assumes "0 \<le> pos w" and "size_opt given = Some n" and "0 < n" and "n \<le> remaining w"
  shows "(let bs = Buffer_of_string s;
              payload = (if int (length bs) > n then take (nat n) bs
                         else bs @ replicate (nat (n - int (length bs))) 0)
          in length payload = nat n \<and>
             fst (writeString s (Some given) w) =
               Ok (w\<lparr>buffer := take (nat (pos w)) (buffer w) @ payload @
                                   drop (nat (pos w) + nat n) (buffer w),
                     pos := pos w + n\<rparr>)) \<and>
         fst (writeString s (Some (given\<lparr>null_opt := b\<rparr>)) w) = fst (writeString s (Some given) w)"
proof -
  let ?bs = "Buffer_of_string s"
  let ?pl = "if int (length ?bs) > n then take (nat n) ?bs
             else ?bs @ replicate (nat (n - int (length ?bs))) 0"
  have len: "length ?pl = nat n" using assms(3) by auto
  have bound: "pos w + int (length ?pl) \<le> int (length (buffer w))"
    using assms(3,4) by (simp only: len) (simp add: remaining_def wlength_def)
  have "store_bytes (buffer w) (pos w) ?pl =
        take (nat (pos w)) (buffer w) @ ?pl @ drop (nat (pos w) + length ?pl) (buffer w)"
    by (rule store_bytes_eq [OF assms(1) bound])
  then have eq: "store_bytes (buffer w) (pos w) ?pl =
        take (nat (pos w)) (buffer w) @ ?pl @ drop (nat (pos w) + nat n) (buffer w)"
    by (simp only: len)
  have res: "fst (writeString s (Some given) w) =
        Ok (w\<lparr>buffer := take (nat (pos w)) (buffer w) @ ?pl @ drop (nat (pos w) + nat n) (buffer w),
              pos := pos w + n\<rparr>)"
    using writeString_sized_fits [OF assms, of s] by (simp only: eq)
  have nul: "fst (writeString s (Some (given\<lparr>null_opt := b\<rparr>)) w) = fst (writeString s (Some given) w)"
    using assms(2,3) by (intro writeString_sized_null_ignored) auto
  from len res nul show ?thesis by (simp only: Let_def)
qed

theorem C6_sized_string_exactly_n_witness:
  "fst (writeString ''abcdef'' (Some \<lparr>size_opt = Some 2, null_opt = None, safe_opt = None\<rparr>)
          (BitWriter 4 BE)) =
     Ok \<lparr>buffer = [0x61, 0x62, 0x00, 0x00], pos = 2, endianness = BE\<rparr> \<and>
   fst (writeString ''a'' (Some \<lparr>size_opt = Some 3, null_opt = Some False, safe_opt = None\<rparr>)
          \<lparr>buffer = [1, 2, 3, 4, 5], pos = 1, endianness = BE\<rparr>) =
     Ok \<lparr>buffer = [1, 0x61, 0, 0, 5], pos = 4, endianness = BE\<rparr>"
  using C6_sized_string_exactly_n
      [of "BitWriter 4 BE" "\<lparr>size_opt = Some 2, null_opt = None, safe_opt = None\<rparr>" 2 "''abcdef''" None]
    C6_sized_string_exactly_n
      [of "\<lparr>buffer = [1, 2, 3, 4, 5], pos = 1, endianness = BE\<rparr>"
          "\<lparr>size_opt = Some 3, null_opt = Some False, safe_opt = None\<rparr>" 3 "''a''" None]
  by (simp add: BitWriter_def remaining_def wlength_def Buffer_of_string_def Let_def eval_nat_numeral)

section \<open>Integer writes with an explicit size\<close>

text \<open>
  Claim C3 says that with an explicit size the entry is the unsigned one when \<open>v \<ge> 0\<close>, and
  that \<open>v = 0\<close> selects the unsigned entry. The source tests \<^verbatim>\<open>integer > 0\<close>: for
  \<open>v = 0\<close> and size 8 the entry selected is the signed one (\<^verbatim>\<open>writeInt8\<close>).
\<close>

theorem C3_explicit_size_zero_counterexample:
  "select_type BE 0 (Some \<lparr>size_opt = Some 8, null_opt = None, safe_opt = None\<rparr>) =
     Inr (Some \<lparr>mmethod = WriteInt8, mlength = 1, tmin = - 0x80, tmax = 0x7f\<rparr>) \<and>
   bySize BE Unsigned 8 = Some \<lparr>mmethod = WriteUInt8, mlength = 1, tmin = 0, tmax = 0xff\<rparr>"
  by (simp add: select_type_def size_given_def INT_SIZES_def bySize_def generateMethodTable_def)

text \<open>
  Claim C3, amended. A \<open>v\<close> outside \<open>[-2^31, 2^32 - 1]\<close> fails with a RangeError before the
  size is looked at. For \<open>v\<close> inside that range and an explicit size \<open>s\<close> other than 0,
  \<^verbatim>\<open>writeInt(v, {size: s})\<close> fails with a SizeError unless \<open>s\<close> is 8, 16 or 32; for these
  three sizes the entry selected is the one of width \<open>s\<close>, unsigned if \<open>v > 0\<close> and signed
  if \<open>v \<le> 0\<close>. A size of 0 is taken as no size. For \<open>v = 0\<close> the signed method stores the
  same bytes as the unsigned one of the same width.
\<close>

theorem C3_explicit_size_selection:
  "(\<not> Range_test UNSIGNED_RANGE_32 v \<longrightarrow> writeInt v oo w = Throw RangeError w) \<and>
   (Range_test UNSIGNED_RANGE_32 v \<and> size_opt given = Some s \<and> s \<noteq> 0 \<and> s \<notin> {8, 16, 32} \<longrightarrow>
      writeInt v (Some given) w = Throw SizeError w) \<and>
   (size_opt given = Some s \<and> s \<in> {8, 16, 32} \<longrightarrow>
      select_type e v (Some given) = Inr (bySize e (if v > 0 then Unsigned else Signed) s) \<and>
      (\<exists>t. bySize e (if v > 0 then Unsigned else Signed) s = Some t \<and>
           mlength t * 8 = s \<and>
           mmethod t =
             (if v > 0
              then (if s = 8 then WriteUInt8 else if s = 16 then WriteUInt16 e else WriteUInt32 e)
              else (if s = 8 then WriteInt8 else if s = 16 then WriteInt16 e else WriteInt32 e)))) \<and>
   (size_opt given = Some 0 \<longrightarrow> select_type e v (Some given) = select_type e v None) \<and>
   call_method WriteInt8 buf 0 off = call_method WriteUInt8 buf 0 off \<and>
   call_method (WriteInt16 e) buf 0 off = call_method (WriteUInt16 e) buf 0 off \<and>
   call_method (WriteInt32 e) buf 0 off = call_method (WriteUInt32 e) buf 0 off"
proof -
  have a: "\<not> Range_test UNSIGNED_RANGE_32 v \<longrightarrow> writeInt v oo w = Throw RangeError w"
    by (simp add: writeInt_out_of_range)
  have b: "Range_test UNSIGNED_RANGE_32 v \<and> size_opt given = Some s \<and> s \<noteq> 0 \<and> s \<notin> {8, 16, 32} \<longrightarrow>
      writeInt v (Some given) w = Throw SizeError w"
    by (auto simp add: writeInt_def select_type_sized)
  have c: "size_opt given = Some s \<and> s \<in> {8, 16, 32} \<longrightarrow>
      select_type e v (Some given) = Inr (bySize e (if v > 0 then Unsigned else Signed) s) \<and>
      (\<exists>t. bySize e (if v > 0 then Unsigned else Signed) s = Some t \<and>
           mlength t * 8 = s \<and>
           mmethod t =
             (if v > 0
              then (if s = 8 then WriteUInt8 else if s = 16 then WriteUInt16 e else WriteUInt32 e)
              else (if s = 8 then WriteInt8 else if s = 16 then WriteInt16 e else WriteInt32 e)))"
    by (auto simp add: select_type_sized bySize_entries)
  have d: "size_opt given = Some 0 \<longrightarrow> select_type e v (Some given) = select_type e v None"
    by (simp add: select_type_def size_given_def)
  from a b c d zero_same_bytes show ?thesis by blast
qed

theorem C3_explicit_size_selection_witness:
  "select_type LE (- 5) (Some \<lparr>size_opt = Some 16, null_opt = None, safe_opt = None\<rparr>) =
     Inr (Some \<lparr>mmethod = WriteInt16 LE, mlength = 2, tmin = - 0x8000, tmax = 0x7fff\<rparr>) \<and>
   writeInt 7 (Some \<lparr>size_opt = Some 7, null_opt = None, safe_opt = None\<rparr>) (BitWriter 4 BE) =
     Throw SizeError (BitWriter 4 BE) \<and>
   writeInt (2 ^ 32) (Some \<lparr>size_opt = Some 7, null_opt = None, safe_opt = None\<rparr>) (BitWriter 4 BE) =
     Throw RangeError (BitWriter 4 BE)"
  using C3_explicit_size_selection [of "- 5" None "BitWriter 4 BE"
          "\<lparr>size_opt = Some 16, null_opt = None, safe_opt = None\<rparr>" 16 LE "[]" 0]
    C3_explicit_size_selection [of 7 None "BitWriter 4 BE"
          "\<lparr>size_opt = Some 7, null_opt = None, safe_opt = None\<rparr>" 7 LE "[]" 0]
    C3_explicit_size_selection [of "2 ^ 32" "Some \<lparr>size_opt = Some 7, null_opt = None, safe_opt = None\<rparr>" "BitWriter 4 BE"
          "\<lparr>size_opt = Some 7, null_opt = None, safe_opt = None\<rparr>" 7 LE "[]" 0]
  by (simp add: Range_test_def UNSIGNED_RANGE_32_def bySize_entries)

section \<open>Indexed access\<close>

text \<open>
  Claim C8 says that an indexed assignment fails with a RangeError unless the value lies in
  \<open>[0, 255]\<close>. The setter tests against \<^verbatim>\<open>UNSIGNED_RANGE[8]\<close>, which is
  \<^verbatim>\<open>Range(-0x80, 0xff)\<close>: assigning \<open>-1\<close> succeeds and stores \<open>0xff\<close>.
\<close>

theorem C8_indexed_set_counterexample:
  "index_set (BitWriter 2 BE) 0 (- 1) = Ok \<lparr>buffer = [0xff, 0x00], pos = 0, endianness = BE\<rparr>"
  by code_simp

text \<open>
  Claim C8, amended. For every offset \<open>n\<close> with \<open>0 \<le> n < length\<close>, the indexed read
  returns the byte at \<open>n\<close>, and the indexed assignment of \<open>v\<close> fails with a RangeError
  unless \<open>-128 \<le> v \<le> 255\<close>; otherwise it stores the byte \<open>v mod 256\<close> (\<open>v\<close> itself for
  \<open>0 \<le> v \<le> 255\<close>) at \<open>n\<close> and changes nothing else: the cursor is neither read nor moved
  and no capacity is checked.
\<close>

theorem C8_indexed_access:
  assumes "0 \<le> n" and "n < wlength w"
  shows "index_get w n = Some (buffer w ! nat n) \<and>
         (v < - 128 \<or> 255 < v \<longrightarrow> index_set w n v = Throw RangeError w) \<and>
         (- 128 \<le> v \<and> v \<le> 255 \<longrightarrow>
            index_set w n v = Ok (w\<lparr>buffer := (buffer w)[nat n := word_of_int v]\<rparr>)) \<and>
         (0 \<le> v \<and> v \<le> 255 \<longrightarrow> uint (word_of_int v :: byte) = v) \<and>
         (- 128 \<le> v \<and> v < 0 \<longrightarrow> uint (word_of_int v :: byte) = v + 256)"
proof -
  have g: "index_get w n = Some (buffer w ! nat n)"
    using assms by (simp add: index_get_def)
  have bad: "v < - 128 \<or> 255 < v \<longrightarrow> index_set w n v = Throw RangeError w"
    using assms by (auto simp add: index_set_def Range_test_def UNSIGNED_RANGE_8_def)
  have good: "- 128 \<le> v \<and> v \<le> 255 \<longrightarrow>
      index_set w n v = Ok (w\<lparr>buffer := (buffer w)[nat n := word_of_int v]\<rparr>)"
    using assms by (auto simp add: index_set_def Range_test_def UNSIGNED_RANGE_8_def poke_def wlength_def)
  have u1: "0 \<le> v \<and> v \<le> 255 \<longrightarrow> uint (word_of_int v :: byte) = v"
    by (simp add: uint_word_of_int take_bit_eq_mod)
  have u2: "- 128 \<le> v \<and> v < 0 \<longrightarrow> uint (word_of_int v :: byte) = v + 256"
  proof
    assume h: "- 128 \<le> v \<and> v < 0"
    have "v mod 256 = (v + 256) mod 256" by simp
    also have "\<dots> = v + 256" using h by (intro mod_pos_pos_trivial) auto
    finally have "v mod 256 = v + 256" .
    then show "uint (word_of_int v :: byte) = v + 256"
      by (simp add: uint_word_of_int take_bit_eq_mod)
  qed
  from g bad good u1 u2 show ?thesis by blast
qed

theorem C8_indexed_access_witness:
  "index_get \<lparr>buffer = [7, 8, 9], pos = 3, endianness = BE\<rparr> 1 = Some 8 \<and>
   index_set \<lparr>buffer = [7, 8, 9], pos = 3, endianness = BE\<rparr> 1 200 =
     Ok \<lparr>buffer = [7, 200, 9], pos = 3, endianness = BE\<rparr> \<and>
   index_set \<lparr>buffer = [7, 8, 9], pos = 3, endianness = BE\<rparr> 1 256 =
     Throw RangeError \<lparr>buffer = [7, 8, 9], pos = 3, endianness = BE\<rparr>"
  using C8_indexed_access [of 1 "\<lparr>buffer = [7, 8, 9], pos = 3, endianness = BE\<rparr>" 200]
    C8_indexed_access [of 1 "\<lparr>buffer = [7, 8, 9], pos = 3, endianness = BE\<rparr>" 256]
  by (simp add: wlength_def)

section \<open>Raw writes of a list\<close>

text \<open>
  Claim C5 says that every element of a list written without \<^verbatim>\<open>safe: true\<close> must lie in
  \<open>[0, 255]\<close> or the write fails with a RangeError, and that a list that passes the
  validation is written. The validation tests against \<^verbatim>\<open>UNSIGNED_RANGE[8]\<close>, which is
  \<^verbatim>\<open>Range(-0x80, 0xff)\<close>, so \<open>-1\<close> passes it; and the call that follows the validation
  reads the undeclared \<^verbatim>\<open>array\<close>, so the write ends in a ReferenceError, not a RangeError,
  with nothing written.
\<close>

theorem C5_raw_list_counterexample:
  "validate [Num (- 1)] = None \<and>
   writeRaw (RArray [Num (- 1)]) None (BitWriter 4 BE) = Throw ReferenceError (BitWriter 4 BE)"
  by (simp add: writeRaw_def safe_given_def Range_test_def UNSIGNED_RANGE_8_def)

text \<open>
  Claim C5, amended. For every list passed to \<^verbatim>\<open>writeRaw\<close> without \<^verbatim>\<open>safe: true\<close>, the
  elements are validated in order before any byte is written: the first element that is
  not a number makes the write fail with an ArrayTypeError, the first number outside
  \<open>[-128, 255]\<close> makes it fail with a RangeError, and in both cases the writer is left as
  it was; \<^verbatim>\<open>writeRaw([1,2,300])\<close> raises a RangeError on the third element with the buffer
  unmodified. (What follows a passed validation is not part of this statement.)
\<close>

theorem C5_raw_list_validation:
  assumes "\<not> safe_given oo"
  shows "(n < length xs \<and> (\<forall>j<n. \<exists>v. xs ! j = Num v \<and> - 128 \<le> v \<and> v \<le> 255) \<and>
            xs ! n = NotNum \<longrightarrow>
            writeRaw (RArray xs) oo w = Throw ArrayTypeError w) \<and>
         (n < length xs \<and> (\<forall>j<n. \<exists>v. xs ! j = Num v \<and> - 128 \<le> v \<and> v \<le> 255) \<and>
            xs ! n = Num u \<and> (u < - 128 \<or> 255 < u) \<longrightarrow>
            writeRaw (RArray xs) oo w = Throw RangeError w) \<and>
         writeRaw (RArray [Num 1, Num 2, Num 300]) None (BitWriter 4 BE) =
           Throw RangeError (BitWriter 4 BE)"
proof -
  have a: "writeRaw (RArray xs) oo w = Throw ArrayTypeError w"
    if "n < length xs" "\<forall>j<n. \<exists>v. xs ! j = Num v \<and> - 128 \<le> v \<and> v \<le> 255" "xs ! n = NotNum"
    using validate_first_not_number [OF that] assms by (simp add: writeRaw_def)
  have b: "writeRaw (RArray xs) oo w = Throw RangeError w"
    if "n < length xs" "\<forall>j<n. \<exists>v. xs ! j = Num v \<and> - 128 \<le> v \<and> v \<le> 255" "xs ! n = Num u"
      "u < - 128 \<or> 255 < u"
    using validate_first_out_of_range [OF that] assms by (simp add: writeRaw_def)
  have c: "writeRaw (RArray [Num 1, Num 2, Num 300]) None (BitWriter 4 BE) =
      Throw RangeError (BitWriter 4 BE)"
    by (simp add: writeRaw_def safe_given_def Range_test_def UNSIGNED_RANGE_8_def)
  from a b c show ?thesis by blast
qed

theorem C5_raw_list_validation_witness:
  "writeRaw (RArray [Num (- 3), NotNum, Num 300]) None (BitWriter 4 BE) =
     Throw ArrayTypeError (BitWriter 4 BE) \<and>
   writeRaw (RArray [Num 1, Num 256]) (Some \<lparr>size_opt = None, null_opt = None, safe_opt = Some False\<rparr>)
      (BitWriter 4 BE) = Throw RangeError (BitWriter 4 BE)"
  using C5_raw_list_validation [where oo = None and n = 1 and xs = "[Num (- 3), NotNum, Num 300]"
                    and w = "BitWriter 4 BE" and u = 0]
    C5_raw_list_validation [where oo = "Some \<lparr>size_opt = None, null_opt = None, safe_opt = Some False\<rparr>"
                    and n = 1 and xs = "[Num 1, Num 256]" and w = "BitWriter 4 BE" and u = 256]
  by (simp add: safe_given_def)

section \<open>The cursor\<close>

text \<open>
  Claim C9: \<open>0 \<le> cursor \<le> length\<close> holds after every operation, \<^verbatim>\<open>writeRaw\<close> with
  \<^verbatim>\<open>safe: true\<close> and failed operations included. The setter \<open>position\<close> keeps the bound
  (lemma \<open>position_setter\<close>), and every other write moves the cursor through it (lemma
  \<open>cursor_bound_kept\<close>). The safe
  branch of \<^verbatim>\<open>writeRaw\<close> increments \<^verbatim>\<open>_pos\<close> directly, inside the argument list of
  \<^verbatim>\<open>writeUInt8\<close>: on a writer of length 2, writing the list \<open>[1, 2, 3]\<close> stores two bytes,
  the third \<^verbatim>\<open>writeUInt8\<close> fails, and the cursor is left at 3.
\<close>

theorem C9_safe_raw_cursor_past_length:
  "writeRaw (RArray [Num 1, Num 2, Num 3])
      (Some \<lparr>size_opt = None, null_opt = None, safe_opt = Some True\<rparr>) (BitWriter 2 BE) =
     Throw AssertionError \<lparr>buffer = [0x01, 0x02], pos = 3, endianness = BE\<rparr> \<and>
   wlength \<lparr>buffer = [0x01, 0x02], pos = 3, endianness = BE\<rparr> = 2"
  by code_simp

section \<open>Writing into a full writer\<close>

text \<open>
  Claim C4 says that every write of a value of non-zero length into a full writer fails
  with an OverflowError. \<^verbatim>\<open>writeRaw\<close> has no capacity check: a buffer written into a
  full writer fails in \<^verbatim>\<open>move\<close> with a RangeError when the writer has length 0, and in
  the platform's \<^verbatim>\<open>copy\<close> otherwise.
\<close>

theorem C4_full_writer_counterexample:
  "full (BitWriter 0 BE) \<and>
   writeRaw (RBuffer [0x01]) None (BitWriter 0 BE) = Throw RangeError (BitWriter 0 BE) \<and>
   full \<lparr>buffer = [0x07], pos = 1, endianness = BE\<rparr> \<and>
   writeRaw (RBuffer [0x01]) None \<lparr>buffer = [0x07], pos = 1, endianness = BE\<rparr> =
     Throw TargetStartError \<lparr>buffer = [0x07], pos = 1, endianness = BE\<rparr>"
  by code_simp

text \<open>
  Claim C4, amended. On every writer with \<open>remaining() = 0\<close>, \<open>full()\<close> is true, and: an
  integer of the range \<open>[-2^31, 2^32 - 1]\<close>, written with no size or with size 8, 16 or 32,
  and a non-empty string without an explicit size fail with an OverflowError and leave the
  writer as it was; a non-empty byte sequence fails and leaves the writer as it was as
  well, yet not with an OverflowError: with the RangeError of the cursor move when the
  writer has length 0, and with the out-of-bounds error of the copy otherwise. \<open>full()\<close> is
  true exactly when \<open>remaining() = 0\<close>. (Lists are not part of this statement.)
\<close>

theorem C4_full_writer:
  assumes "remaining w = 0"
  shows "full w \<and>
         (Range_test UNSIGNED_RANGE_32 v \<and>
            (size_given oo = None \<or> size_given oo \<in> {Some 8, Some 16, Some 32}) \<longrightarrow>
            writeInt v oo w = Throw OverflowError w) \<and>
         (s \<noteq> [] \<and> size_given oo = None \<longrightarrow>
            fst (writeString s oo w) = Throw OverflowError w) \<and>
         (bs \<noteq> [] \<longrightarrow>
            writeRaw (RBuffer bs) oo w =
              Throw (if wlength w = 0 then RangeError else TargetStartError) w) \<and>
         full w' = (remaining w' = 0)"
proof -
  have f: "full w" using assms by (simp add: full_def)
  have i: "writeInt v oo w = Throw OverflowError w"
    if "Range_test UNSIGNED_RANGE_32 v"
      "size_given oo = None \<or> size_given oo \<in> {Some 8, Some 16, Some 32}"
  proof -
    from that(2) have "\<exists>t. select_type (endianness w) v oo = Inr (Some t)"
    proof
      assume "size_given oo = None"
      then show ?thesis by (rule select_type_auto_total [OF that(1)])
    next
      assume "size_given oo \<in> {Some 8, Some 16, Some 32}"
      then obtain n where "size_given oo = Some n" "n \<in> {8, 16, 32}" by auto
      then show ?thesis by (rule select_type_valid_size_total)
    qed
    then obtain t where "select_type (endianness w) v oo = Inr (Some t)" ..
    then show ?thesis by (rule writeInt_full [OF assms that(1)])
  qed
  have st: "fst (writeString s oo w) = Throw OverflowError w"
    if "s \<noteq> []" "size_given oo = None"
  proof -
    have "int (length (Buffer_of_string s)) > remaining w"
      using that(1) assms by (simp add: Buffer_of_string_def)
    then show ?thesis by (rule writeString_unsized_overflow [OF that(2)])
  qed
  have r: "writeRaw (RBuffer bs) oo w =
      Throw (if wlength w = 0 then RangeError else TargetStartError) w" if "bs \<noteq> []"
    using copyBuffer_full [OF assms that] by (simp add: writeRaw_def)
  have g: "full w' = (remaining w' = 0)" by (simp add: full_def)
  from f i st r g show ?thesis by blast
qed

theorem C4_full_writer_witness:
  "full \<lparr>buffer = [0x07, 0x08], pos = 2, endianness = LE\<rparr> \<and>
   writeInt 5 None \<lparr>buffer = [0x07, 0x08], pos = 2, endianness = LE\<rparr> =
     Throw OverflowError \<lparr>buffer = [0x07, 0x08], pos = 2, endianness = LE\<rparr> \<and>
   fst (writeString ''a'' None \<lparr>buffer = [0x07, 0x08], pos = 2, endianness = LE\<rparr>) =
     Throw OverflowError \<lparr>buffer = [0x07, 0x08], pos = 2, endianness = LE\<rparr> \<and>
   writeRaw (RBuffer [0x01]) None \<lparr>buffer = [0x07, 0x08], pos = 2, endianness = LE\<rparr> =
     Throw TargetStartError \<lparr>buffer = [0x07, 0x08], pos = 2, endianness = LE\<rparr>"
  using C4_full_writer [where w = "\<lparr>buffer = [0x07, 0x08], pos = 2, endianness = LE\<rparr>"
      and v = 5 and oo = None and s = "''a''" and bs = "[0x01]"]
  by (simp add: remaining_def wlength_def Range_test_def UNSIGNED_RANGE_32_def size_given_def)

section \<open>Failed and successful writes\<close>

text \<open>
  Claim C2 says that every failed write leaves the buffer and \<open>remaining()\<close> as they were.
  \<^verbatim>\<open>_copyBuffer\<close> copies first and moves the cursor afterwards, with no check before the
  copy: writing a buffer of three bytes into a fresh writer of length 2 stores the two
  bytes that fit and then fails in \<^verbatim>\<open>move\<close>.
\<close>

theorem C2_failed_raw_write_counterexample:
  "writeRaw (RBuffer [0x01, 0x02, 0x03]) None (BitWriter 2 BE) =
     Throw RangeError \<lparr>buffer = [0x01, 0x02], pos = 0, endianness = BE\<rparr> \<and>
   buffer (BitWriter 2 BE) = [0x00, 0x00]"
  by code_simp

text \<open>
  Claim C2, amended. On every writer whose cursor is not negative:
  \<^item> a failed \<^verbatim>\<open>writeInt\<close>, a failed \<^verbatim>\<open>writeString\<close> without an explicit size and a
    failed \<^verbatim>\<open>writeRaw\<close> of a list without \<^verbatim>\<open>safe: true\<close> leave the writer (buffer and
    cursor) exactly as before the call;
  \<^item> a failed write of a byte sequence (\<^verbatim>\<open>writeRaw\<close> of a buffer, and so \<^verbatim>\<open>writeString\<close>
    with an explicit size) leaves \<open>remaining()\<close> as before; the bytes that fit may have been
    copied;
  \<^item> a successful write decreases \<open>remaining()\<close> by exactly the number of bytes encoded:
    the length of the selected table entry for an integer, the length of the byte
    sequence or of the list for a raw write, the length of the text plus one when the
    terminator is written for a string without size, and for a string with an explicit
    size \<open>N\<close> the length of the truncated or padded text, which is \<open>N\<close> when \<open>N > 0\<close> and,
    \<^verbatim>\<open>slice(0, N)\<close> counting a negative \<open>N\<close> from the end of the text, the length of the
    text less \<open>|N|\<close> (at least 0) when \<open>N < 0\<close>;
  \<^item> the generic write is the operation it dispatches to.
  (A failed \<^verbatim>\<open>writeRaw\<close> with \<^verbatim>\<open>safe: true\<close> is not part of this statement.)
\<close>

theorem C2_failed_and_successful_writes:
  assumes "0 \<le> pos w"
  shows "(writeInt v oo w = Throw e w' \<longrightarrow> w' = w) \<and>
         (size_given oo = None \<and> fst (writeString s oo w) = Throw e w' \<longrightarrow> w' = w) \<and>
         (\<not> safe_given oo \<and> writeRaw (RArray xs) oo w = Throw e w' \<longrightarrow> w' = w) \<and>
         (writeRaw (RBuffer bs) oo w = Throw e w' \<longrightarrow> remaining w' = remaining w) \<and>
         (size_given oo = Some n \<and> fst (writeString s oo w) = Throw e w' \<longrightarrow>
            remaining w' = remaining w) \<and>
         (writeInt v oo w = Ok w' \<longrightarrow>
            (\<exists>t. select_type (endianness w) v oo = Inr (Some t) \<and>
                 remaining w' = remaining w - mlength t)) \<and>
         (writeRaw (RBuffer bs) oo w = Ok w' \<longrightarrow> remaining w' = remaining w - int (length bs)) \<and>
         (writeRaw (RArray xs) oo w = Ok w' \<longrightarrow> remaining w' = remaining w - int (length xs)) \<and>
         (size_given oo = None \<and> fst (writeString s oo w) = Ok w' \<longrightarrow>
            remaining w' =
              remaining w - int (length (Buffer_of_string s)) -
              (if (\<forall>given. oo = Some given \<longrightarrow> null_opt given \<noteq> Some False) \<and>
                  int (length (Buffer_of_string s)) < remaining w then 1 else 0)) \<and>
         (size_given oo = Some n \<and> 0 < n \<and> fst (writeString s oo w) = Ok w' \<longrightarrow>
            remaining w' = remaining w - n) \<and>
         (size_given oo = Some n \<and> fst (writeString s oo w) = Ok w' \<longrightarrow>
            remaining w' =
              remaining w -
              (if 0 < n then n else max 0 (int (length (Buffer_of_string s)) + n))) \<and>
         fst (write_any (DNumber v) oo w) = writeInt v oo w \<and>
         fst (write_any (DRaw arry) oo w) = writeRaw arry oo w \<and>
         write_any (DString s) oo w = writeString s oo w"
proof -
  have a: "writeInt v oo w = Throw e w' \<longrightarrow> w' = w"
    using writeInt_Throw [OF assms] by blast
  have b: "size_given oo = None \<and> fst (writeString s oo w) = Throw e w' \<longrightarrow> w' = w"
    using writeString_unsized_Throw [OF assms] by blast
  have c: "\<not> safe_given oo \<and> writeRaw (RArray xs) oo w = Throw e w' \<longrightarrow> w' = w"
    using writeRaw_unsafe_unchanged [of oo xs w] by auto
  have d: "writeRaw (RBuffer bs) oo w = Throw e w' \<longrightarrow> remaining w' = remaining w"
    using copyBuffer_Throw [of bs w e w'] by (simp add: writeRaw_def remaining_def wlength_def)
  have d': "size_given oo = Some n \<and> fst (writeString s oo w) = Throw e w' \<longrightarrow>
      remaining w' = remaining w"
  proof
    assume h: "size_given oo = Some n \<and> fst (writeString s oo w) = Throw e w'"
    then have "\<exists>pl. copyBuffer pl w = Throw e w'"
      using writeString_sized_eq [of oo n s w] by auto
    then obtain pl where "copyBuffer pl w = Throw e w'" ..
    from copyBuffer_Throw [OF this] show "remaining w' = remaining w"
      by (simp add: remaining_def wlength_def)
  qed
  have e: "writeInt v oo w = Ok w' \<longrightarrow>
      (\<exists>t. select_type (endianness w) v oo = Inr (Some t) \<and>
           remaining w' = remaining w - mlength t)"
  proof
    assume "writeInt v oo w = Ok w'"
    from writeInt_Ok [OF this] obtain t where
      t: "select_type (endianness w) v oo = Inr (Some t)" "pos w' = pos w + mlength t"
        "length (buffer w') = length (buffer w)" by blast
    from remaining_eq [OF t(3) t(2)] t(1)
    show "\<exists>t. select_type (endianness w) v oo = Inr (Some t) \<and>
           remaining w' = remaining w - mlength t" by blast
  qed
  have f: "writeRaw (RBuffer bs) oo w = Ok w' \<longrightarrow> remaining w' = remaining w - int (length bs)"
    using copyBuffer_Ok [of bs w w'] by (simp add: writeRaw_def remaining_def wlength_def)
  have g: "writeRaw (RArray xs) oo w = Ok w' \<longrightarrow> remaining w' = remaining w - int (length xs)"
  proof
    assume h: "writeRaw (RArray xs) oo w = Ok w'"
    then have "writeRaw_safe xs w = Ok w'"
      by (auto simp add: writeRaw_def split: if_splits option.splits)
    from writeRaw_safe_Ok [OF this] show "remaining w' = remaining w - int (length xs)"
      by (simp add: remaining_def wlength_def)
  qed
  have h: "size_given oo = None \<and> fst (writeString s oo w) = Ok w' \<longrightarrow>
      remaining w' =
        remaining w - int (length (Buffer_of_string s)) -
        (if (\<forall>given. oo = Some given \<longrightarrow> null_opt given \<noteq> Some False) \<and>
            int (length (Buffer_of_string s)) < remaining w then 1 else 0)"
    using writeString_unsized_Ok [OF assms] by blast
  have i: "size_given oo = Some n \<and> 0 < n \<and> fst (writeString s oo w) = Ok w' \<longrightarrow>
      remaining w' = remaining w - n"
  proof
    assume h: "size_given oo = Some n \<and> 0 < n \<and> fst (writeString s oo w) = Ok w'"
    let ?pl = "if int (length (Buffer_of_string s)) > n then buffer_slice0 (Buffer_of_string s) n
               else Buffer_of_string s @ replicate (nat (n - int (length (Buffer_of_string s)))) 0"
    from h have "copyBuffer ?pl w = Ok w'"
      using writeString_sized_eq [of oo n s w] by simp
    from copyBuffer_Ok [OF this] have "pos w' = pos w + int (length ?pl)"
      and l: "length (buffer w') = length (buffer w)" by simp_all
    moreover have "int (length ?pl) = n" using h by (intro sized_payload_length) simp
    ultimately have "pos w' = pos w + n" by simp
    from remaining_eq [OF l this] show "remaining w' = remaining w - n" .
  qed
  have i': "size_given oo = Some n \<and> fst (writeString s oo w) = Ok w' \<longrightarrow>
      remaining w' =
        remaining w - (if 0 < n then n else max 0 (int (length (Buffer_of_string s)) + n))"
  proof
    assume h: "size_given oo = Some n \<and> fst (writeString s oo w) = Ok w'"
    let ?pl = "if int (length (Buffer_of_string s)) > n then buffer_slice0 (Buffer_of_string s) n
               else Buffer_of_string s @ replicate (nat (n - int (length (Buffer_of_string s)))) 0"
    from h have nz: "n \<noteq> 0"
      by (auto simp add: size_given_def split: option.splits if_splits)
    from h have "copyBuffer ?pl w = Ok w'"
      using writeString_sized_eq [of oo n s w] by simp
    from copyBuffer_Ok [OF this] have "pos w' = pos w + int (length ?pl)"
      and l: "length (buffer w') = length (buffer w)" by simp_all
    then have "pos w' =
        pos w + (if 0 < n then n else max 0 (int (length (Buffer_of_string s)) + n))"
      by (simp only: sized_payload_bytes [OF nz])
    from remaining_eq [OF l this]
    show "remaining w' =
        remaining w - (if 0 < n then n else max 0 (int (length (Buffer_of_string s)) + n))" .
  qed
  have j: "fst (write_any (DNumber v) oo w) = writeInt v oo w"
    "fst (write_any (DRaw arry) oo w) = writeRaw arry oo w"
    "write_any (DString s) oo w = writeString s oo w"
    by (simp_all add: write_any_def)
  from a b c d d' e f g h i i' j show ?thesis by blast
qed

theorem C2_failed_and_successful_writes_witness:
  "writeInt 300 None (BitWriter 1 BE) = Throw OverflowError (BitWriter 1 BE) \<and>
   (\<exists>w'. writeRaw (RBuffer [0x01, 0x02]) None (BitWriter 4 BE) = Ok w' \<and>
         remaining w' = remaining (BitWriter 4 BE) - 2) \<and>
   (\<exists>w'. fst (writeString ''abc'' (Some \<lparr>size_opt = Some (- 1), null_opt = None, safe_opt = None\<rparr>)
                (BitWriter 4 BE)) = Ok w' \<and>
         remaining w' = remaining (BitWriter 4 BE) - 2)"
proof -
  have p4: "0 \<le> pos (BitWriter 4 BE)"
    by (simp add: BitWriter_def)
  have k: "writeRaw (RBuffer [0x01, 0x02]) None (BitWriter 4 BE) =
      Ok \<lparr>buffer = [0x01, 0x02, 0x00, 0x00], pos = 2, endianness = BE\<rparr>" by code_simp
  have ov: "writeInt 300 None (BitWriter 1 BE) = Throw OverflowError (BitWriter 1 BE)"
    by code_simp
  have ng: "fst (writeString ''abc'' (Some \<lparr>size_opt = Some (- 1), null_opt = None, safe_opt = None\<rparr>)
                  (BitWriter 4 BE)) =
      Ok \<lparr>buffer = [0x61, 0x62, 0x00, 0x00], pos = 2, endianness = BE\<rparr>" by code_simp
  have sg: "size_given (Some \<lparr>size_opt = Some (- 1), null_opt = None, safe_opt = None\<rparr>) = Some (- 1)"
    by (simp add: size_given_def)
  from C2_failed_and_successful_writes [OF p4, where bs = "[0x01, 0x02]" and oo = None
      and w' = "\<lparr>buffer = [0x01, 0x02, 0x00, 0x00], pos = 2, endianness = BE\<rparr>"] k
  have r1: "remaining \<lparr>buffer = [0x01, 0x02, 0x00, 0x00], pos = 2, endianness = BE\<rparr> =
        remaining (BitWriter 4 BE) - int (length [0x01 :: byte, 0x02])" by blast
  from C2_failed_and_successful_writes [OF p4, where s = "''abc''" and n = "- 1"
      and oo = "Some \<lparr>size_opt = Some (- 1), null_opt = None, safe_opt = None\<rparr>"
      and w' = "\<lparr>buffer = [0x61, 0x62, 0x00, 0x00], pos = 2, endianness = BE\<rparr>"] ng sg
  have r2: "remaining \<lparr>buffer = [0x61, 0x62, 0x00, 0x00], pos = 2, endianness = BE\<rparr> =
        remaining (BitWriter 4 BE) -
        (if 0 < (- 1 :: int) then - 1 else max 0 (int (length (Buffer_of_string ''abc'')) + - 1))"
    by blast
  from k ov ng r1 r2 show ?thesis by (simp add: Buffer_of_string_def)
qed

end
